theory Spec2Isabelle
  imports Main "HOL-Library.Char_ord" "HOL-Library.List_Lexorder"
begin

section \<open>Data model of the keybinding engine (input.cpp)\<close>

datatype input_event_t =
  keyboard_char | keyboard_code | gamepad | mouse | timeout | error

datatype keymod_t = ctrl | alt | shift

text \<open>
  Modelled from the spec: the struct \<open>input_event\<close> and its \<open>operator==\<close> are declared in
  input.h, which is not among the sources. The spec gives the fields (device family,
  modifier set, code sequence) and the equality: two events are equal iff type, modifier
  set and code sequence are equal. \<open>mouse_pos\<close> is the pointer position that
  \<open>handle_input\<close> reads; it takes no part in the equality.
\<close>

record input_event =
  etype :: input_event_t
  modifiers :: "keymod_t set"
  sequence :: "int list"
  mouse_pos :: "int \<times> int"

definition input_event_eq :: "input_event \<Rightarrow> input_event \<Rightarrow> bool" where
  "input_event_eq a b \<longleftrightarrow>
     etype a = etype b \<and> modifiers a = modifiers b \<and> sequence a = sequence b"

text \<open>
  Modelled from the spec: the class \<open>translation\<close> (translations.h) is not among the
  sources. A display name is a string that may be absent (empty); \<open>no_translation s\<close> is
  the name \<open>s\<close> itself, as the spec's "a name is synthesized from the action id".
\<close>

type_synonym translation = string

definition no_translation :: "string \<Rightarrow> translation" where
  "no_translation s = s"

text \<open>
  Modelled from the spec: the struct \<open>action_attributes\<close> (input.h): a display name, the
  ordered list of bound events, and the user-created flag, which a fresh entry has unset.
\<close>

record action_attributes =
  name :: translation
  input_events :: "input_event list"
  is_user_created :: bool

definition new_action_attributes :: action_attributes where
  "new_action_attributes = \<lparr>name = [], input_events = [], is_user_created = False\<rparr>"

type_synonym t_actions = "string \<rightharpoonup> action_attributes"
type_synonym t_action_contexts = "string \<rightharpoonup> t_actions"

definition default_context_id :: string where
  "default_context_id = ''default''"

text \<open>\<open>action_contexts[context]\<close>: the context, created empty when it is missing.\<close>

definition context_at :: "t_action_contexts \<Rightarrow> string \<Rightarrow> t_actions" where
  "context_at ac c = (case ac c of None \<Rightarrow> Map.empty | Some actions \<Rightarrow> actions)"

definition find_action :: "t_action_contexts \<Rightarrow> string \<Rightarrow> string \<Rightarrow> action_attributes option" where
  "find_action ac c a = (case ac c of None \<Rightarrow> None | Some actions \<Rightarrow> actions a)"

section \<open>Context resolver\<close>

definition get_default_action_name :: "t_action_contexts \<Rightarrow> string \<Rightarrow> translation" where
  "get_default_action_name ac action_id =
     (case ac default_context_id of
        None \<Rightarrow> no_translation action_id
      | Some default_action_context \<Rightarrow>
          (case default_action_context action_id of
             Some default_action \<Rightarrow> name default_action
           | None \<Rightarrow> no_translation action_id))"

text \<open>
  \<open>input_manager::get_action_attributes\<close>. The result is the table after the call (the
  call creates the default context and a missing default entry), the attributes
  referred to, and the value written through \<open>overwrites_default\<close>. In
  \<open>default_action_context[action_id].name = get_default_action_name( action_id )\<close> the
  right-hand side is evaluated before the entry is created: the order that C++17 fixes
  for an assignment, and the one under which the name is synthesized from the action
  id (were the entry created first, its own empty name would be read back).
\<close>

definition get_action_attributes ::
  "t_action_contexts \<Rightarrow> string \<Rightarrow> string \<Rightarrow> t_action_contexts \<times> action_attributes \<times> bool" where
  "get_action_attributes ac action_id context =
     (case (if context \<noteq> default_context_id then find_action ac context action_id else None) of
        Some action \<Rightarrow> (ac, action, True)
      | None \<Rightarrow>
          (let default_action_context = context_at ac default_context_id;
               ac1 = ac(default_context_id \<mapsto> default_action_context)
           in case default_action_context action_id of
                Some default_action \<Rightarrow> (ac1, default_action, False)
              | None \<Rightarrow>
                  (let attributes = new_action_attributes
                         \<lparr>name := get_default_action_name ac1 action_id\<rparr>
                   in (ac1(default_context_id \<mapsto> default_action_context(action_id \<mapsto> attributes)),
                       attributes, False))))"

definition get_input_for_action ::
  "t_action_contexts \<Rightarrow> string \<Rightarrow> string \<Rightarrow> t_action_contexts \<times> input_event list" where
  "get_input_for_action ac action_descriptor context =
     (case get_action_attributes ac action_descriptor context of
        (ac', attributes, _) \<Rightarrow> (ac', input_events attributes))"

section \<open>Keycode registry\<close>

text \<open>
  \<open>int_to_str\<close> and \<open>str_to_int\<close> format and parse an \<open>int\<close> in the classic locale.
  \<open>buffer >> result\<close> skips white space, reads an optional sign and the decimal digits
  that follow; with no digit it stores 0, and a value out of the range of \<open>int\<close> is stored
  as the nearest bound. When the stream holds nothing but white space the extraction
  does not start and \<open>result\<close>, which \<open>str_to_int\<close> declares without a value, is never
  written: the function returns whatever the variable holds, the parameter
  \<open>unwritten\<close> here.
\<close>

definition INT_MAX :: int where
  "INT_MAX = 2147483647"

definition INT_MIN :: int where
  "INT_MIN = - 2147483648"

definition digit_char :: "nat \<Rightarrow> char" where
  "digit_char d = ''0123456789'' ! d"

definition is_digit :: "char \<Rightarrow> bool" where
  "is_digit c \<longleftrightarrow> (48::nat) \<le> of_char c \<and> of_char c \<le> (57::nat)"

definition digit_val :: "char \<Rightarrow> nat" where
  "digit_val c = of_char c - 48"

definition is_space :: "char \<Rightarrow> bool" where
  "is_space c \<longleftrightarrow> c \<in> set [CHR '' '', CHR 0x09, CHR 0x0A, CHR 0x0B, CHR 0x0C, CHR 0x0D]"

fun nat_to_digits :: "nat \<Rightarrow> string" where
  "nat_to_digits n =
     (if n < 10 then [digit_char n] else nat_to_digits (n div 10) @ [digit_char (n mod 10)])"

declare nat_to_digits.simps [simp del]

definition int_to_str :: "int \<Rightarrow> string" where
  "int_to_str number =
     (if number < 0 then CHR ''-'' # nat_to_digits (nat (- number))
      else nat_to_digits (nat number))"

definition digits_value :: "string \<Rightarrow> nat" where
  "digits_value ds = foldl (\<lambda>acc c. 10 * acc + digit_val c) 0 ds"

definition str_to_int :: "int \<Rightarrow> string \<Rightarrow> int" where
  "str_to_int unwritten number =
     (case dropWhile is_space number of
        [] \<Rightarrow> unwritten
      | c # rest \<Rightarrow>
          (let negative = (c = CHR ''-'');
               ds = takeWhile is_digit (if c = CHR ''-'' \<or> c = CHR ''+'' then rest else c # rest);
               v = (if negative then - int (digits_value ds) else int (digits_value ds))
           in if ds = [] then 0
              else if v > INT_MAX then INT_MAX else if v < INT_MIN then INT_MIN else v))"

type_synonym t_key_to_name_map = "int \<rightharpoonup> string"
type_synonym t_name_to_key_map = "string \<rightharpoonup> int"

text \<open>
  The members of \<open>input_manager\<close> that input.cpp reads and writes: the four pairs of
  keycode tables, the binding table, and the timeout behind \<open>get_timeout\<close>,
  \<open>set_timeout\<close> and \<open>reset_timeout\<close>.
\<close>

record input_manager =
  keyboard_char_keycode_to_keyname :: t_key_to_name_map
  keyboard_char_keyname_to_keycode :: t_name_to_key_map
  keyboard_code_keycode_to_keyname :: t_key_to_name_map
  keyboard_code_keyname_to_keycode :: t_name_to_key_map
  gamepad_keycode_to_keyname :: t_key_to_name_map
  gamepad_keyname_to_keycode :: t_name_to_key_map
  mouse_keycode_to_keyname :: t_key_to_name_map
  mouse_keyname_to_keycode :: t_name_to_key_map
  action_contexts :: t_action_contexts
  input_timeout :: int

definition add_keyboard_char_keycode_pair :: "int \<Rightarrow> string \<Rightarrow> input_manager \<Rightarrow> input_manager" where
  "add_keyboard_char_keycode_pair ch nm m =
     m\<lparr>keyboard_char_keycode_to_keyname := (keyboard_char_keycode_to_keyname m)(ch \<mapsto> nm),
       keyboard_char_keyname_to_keycode := (keyboard_char_keyname_to_keycode m)(nm \<mapsto> ch)\<rparr>"

definition add_keyboard_code_keycode_pair :: "int \<Rightarrow> string \<Rightarrow> input_manager \<Rightarrow> input_manager" where
  "add_keyboard_code_keycode_pair ch nm m =
     m\<lparr>keyboard_code_keycode_to_keyname := (keyboard_code_keycode_to_keyname m)(ch \<mapsto> nm),
       keyboard_code_keyname_to_keycode := (keyboard_code_keyname_to_keycode m)(nm \<mapsto> ch)\<rparr>"

definition add_gamepad_keycode_pair :: "int \<Rightarrow> string \<Rightarrow> input_manager \<Rightarrow> input_manager" where
  "add_gamepad_keycode_pair ch nm m =
     m\<lparr>gamepad_keycode_to_keyname := (gamepad_keycode_to_keyname m)(ch \<mapsto> nm),
       gamepad_keyname_to_keycode := (gamepad_keyname_to_keycode m)(nm \<mapsto> ch)\<rparr>"

definition add_mouse_keycode_pair :: "int \<Rightarrow> string \<Rightarrow> input_manager \<Rightarrow> input_manager" where
  "add_mouse_keycode_pair ch nm m =
     m\<lparr>mouse_keycode_to_keyname := (mouse_keycode_to_keyname m)(ch \<mapsto> nm),
       mouse_keyname_to_keycode := (mouse_keyname_to_keycode m)(nm \<mapsto> ch)\<rparr>"

definition char_key_beg :: int where
  "char_key_beg = 32"

definition char_key_end :: int where
  "char_key_end = 126"

text \<open>The \<open>switch( inp_type )\<close> choosing a table; \<open>None\<close> is the null pointer.\<close>

definition keyname_to_keycode_map :: "input_manager \<Rightarrow> input_event_t \<Rightarrow> t_name_to_key_map option" where
  "keyname_to_keycode_map m inp_type =
     (case inp_type of
        keyboard_char \<Rightarrow> Some (keyboard_char_keyname_to_keycode m)
      | keyboard_code \<Rightarrow> Some (keyboard_code_keyname_to_keycode m)
      | gamepad \<Rightarrow> Some (gamepad_keyname_to_keycode m)
      | mouse \<Rightarrow> Some (mouse_keyname_to_keycode m)
      | _ \<Rightarrow> None)"

definition keycode_to_keyname_map :: "input_manager \<Rightarrow> input_event_t \<Rightarrow> t_key_to_name_map option" where
  "keycode_to_keyname_map m inp_type =
     (case inp_type of
        keyboard_char \<Rightarrow> Some (keyboard_char_keycode_to_keyname m)
      | keyboard_code \<Rightarrow> Some (keyboard_code_keycode_to_keyname m)
      | gamepad \<Rightarrow> Some (gamepad_keycode_to_keyname m)
      | mouse \<Rightarrow> Some (mouse_keycode_to_keyname m)
      | _ \<Rightarrow> None)"

text \<open>
  \<open>input_manager::get_keycode\<close>; \<open>unwritten\<close> is passed on to \<open>str_to_int\<close>.
\<close>

definition get_keycode :: "int \<Rightarrow> input_manager \<Rightarrow> input_event_t \<Rightarrow> string \<Rightarrow> int" where
  "get_keycode unwritten m inp_type nm =
     (case (case keyname_to_keycode_map m inp_type of None \<Rightarrow> None | Some mp \<Rightarrow> mp nm) of
        Some code \<Rightarrow> code
      | None \<Rightarrow> if take 8 nm = ''UNKNOWN_'' then str_to_int unwritten (drop 8 nm) else 0)"

text \<open>
  What input.cpp takes from headers and from the translation catalogue, none of it
  among the sources: the macros \<open>IS_F_KEY\<close> and \<open>F_KEY_NUM\<close>, the translated
  function-key name \<open>string_format( pgettext( "function key name", "F%d" ), n )\<close>, the
  translated key name \<open>pgettext( "key name", s )\<close>, the text
  \<open>string_format( _( "unknown key %ld" ), ch )\<close>, \<open>translation::translated\<close>, and the
  joining of a list of strings into an enumeration by \<open>enumerate_as_string\<close>.
\<close>

record name_resources =
  IS_F_KEY :: "int \<Rightarrow> bool"
  F_KEY_NUM :: "int \<Rightarrow> int"
  function_key_name :: "int \<Rightarrow> string"
  key_name_translation :: "string \<Rightarrow> string"
  unknown_key_name :: "int \<Rightarrow> string"
  translated :: "translation \<Rightarrow> string"
  enumeration_of :: "string list \<Rightarrow> string"

definition get_keyname :: "name_resources \<Rightarrow> input_manager \<Rightarrow> int \<Rightarrow> input_event_t \<Rightarrow> bool \<Rightarrow> string" where
  "get_keyname nr m ch inp_type portable =
     (case (case keycode_to_keyname_map m inp_type of None \<Rightarrow> None | Some mp \<Rightarrow> mp ch) of
        Some nm \<Rightarrow>
          if inp_type = keyboard_char \<and> IS_F_KEY nr ch
          then (if portable then nm else function_key_name nr (F_KEY_NUM nr ch))
          else if inp_type = keyboard_char \<and> ch \<ge> char_key_beg \<and> ch \<le> char_key_end \<and> ch \<noteq> 32
          then nm
          else if inp_type = keyboard_code \<and> ch \<ge> char_key_beg \<and> ch < char_key_end \<and> ch \<noteq> 32
          then nm
          else if portable then nm else key_name_translation nr nm
      | None \<Rightarrow>
          if portable then ''UNKNOWN_'' @ int_to_str ch else unknown_key_name nr ch)"

text \<open>
  Name resources that translate nothing and end each string of an enumeration with a
  semicolon, for evaluating examples.
\<close>

definition plain_resources :: name_resources where
  "plain_resources =
     \<lparr>IS_F_KEY = (\<lambda>ch. False), F_KEY_NUM = (\<lambda>ch. ch),
      function_key_name = (\<lambda>n. CHR ''F'' # int_to_str n),
      key_name_translation = (\<lambda>s. s),
      unknown_key_name = (\<lambda>ch. ''unknown key '' @ int_to_str ch),
      translated = (\<lambda>s. s),
      enumeration_of = (\<lambda>strs. concat (map (\<lambda>str. str @ '';'') strs))\<rparr>"

definition empty_manager :: input_manager where
  "empty_manager =
     \<lparr>keyboard_char_keycode_to_keyname = Map.empty,
      keyboard_char_keyname_to_keycode = Map.empty,
      keyboard_code_keycode_to_keyname = Map.empty,
      keyboard_code_keyname_to_keycode = Map.empty,
      gamepad_keycode_to_keyname = Map.empty,
      gamepad_keyname_to_keycode = Map.empty,
      mouse_keycode_to_keyname = Map.empty,
      mouse_keyname_to_keycode = Map.empty,
      action_contexts = Map.empty,
      input_timeout = - 1\<rparr>"

text \<open>
  The registry starts empty and changes only through the four \<open>add_..._keycode_pair\<close>
  functions (\<open>init_keycode_mapping\<close> is a sequence of such calls). A registration is
  one such call; \<open>registry_of\<close> is the registry after a sequence of them.
\<close>

datatype registration =
    for_keyboard_char int string
  | for_keyboard_code int string
  | for_gamepad int string
  | for_mouse int string

fun register :: "registration \<Rightarrow> input_manager \<Rightarrow> input_manager" where
  "register (for_keyboard_char ch nm) m = add_keyboard_char_keycode_pair ch nm m"
| "register (for_keyboard_code ch nm) m = add_keyboard_code_keycode_pair ch nm m"
| "register (for_gamepad ch nm) m = add_gamepad_keycode_pair ch nm m"
| "register (for_mouse ch nm) m = add_mouse_keycode_pair ch nm m"

fun registration_family :: "registration \<Rightarrow> input_event_t" where
  "registration_family (for_keyboard_char ch nm) = keyboard_char"
| "registration_family (for_keyboard_code ch nm) = keyboard_code"
| "registration_family (for_gamepad ch nm) = gamepad"
| "registration_family (for_mouse ch nm) = mouse"

fun registration_code :: "registration \<Rightarrow> int" where
  "registration_code (for_keyboard_char ch nm) = ch"
| "registration_code (for_keyboard_code ch nm) = ch"
| "registration_code (for_gamepad ch nm) = ch"
| "registration_code (for_mouse ch nm) = ch"

fun registration_name :: "registration \<Rightarrow> string" where
  "registration_name (for_keyboard_char ch nm) = nm"
| "registration_name (for_keyboard_code ch nm) = nm"
| "registration_name (for_gamepad ch nm) = nm"
| "registration_name (for_mouse ch nm) = nm"

definition registry_of :: "registration list \<Rightarrow> input_manager" where
  "registry_of registrations = fold register registrations empty_manager"

section \<open>Binding store: loading\<close>

text \<open>
  A keybinding record as the JSON reader hands it over. Members with a default are
  optional; \<open>key\<close> is an array of names or a single name. The errors of the reader
  itself (a malformed document, a missing \<open>id\<close>) are not modelled; the errors that
  \<open>input_manager::load\<close> raises are. \<open>unwritten\<close> is passed on to \<open>get_keycode\<close>.
\<close>

datatype json_key = key_array "string list" | key_string string

record json_keybinding =
  jb_input_method :: string
  jb_mod :: "string list option"
  jb_key :: json_key

record json_action =
  ja_version :: "int option"
  ja_type :: "string option"
  ja_id :: string
  ja_category :: "string option"
  ja_name :: "translation option"
  ja_bindings :: "json_keybinding list"
  ja_is_user_created :: "bool option"

datatype load_error = unknown_input_method | unknown_modifier_name

definition current_keybinding_version :: int where
  "current_keybinding_version = 1"

fun map_result :: "('a \<Rightarrow> 'e + 'b) \<Rightarrow> 'a list \<Rightarrow> 'e + 'b list" where
  "map_result f [] = Inr []"
| "map_result f (x # xs) =
     (case f x of
        Inl e \<Rightarrow> Inl e
      | Inr y \<Rightarrow> (case map_result f xs of Inl e \<Rightarrow> Inl e | Inr ys \<Rightarrow> Inr (y # ys)))"

definition new_event_types :: "string \<Rightarrow> load_error + input_event_t list" where
  "new_event_types input_method =
     (if input_method = ''keyboard_any'' then Inr [keyboard_char, keyboard_code]
      else if input_method = ''keyboard_char'' \<or> input_method = ''keyboard'' then Inr [keyboard_char]
      else if input_method = ''keyboard_code'' then Inr [keyboard_code]
      else if input_method = ''gamepad'' then Inr [gamepad]
      else if input_method = ''mouse'' then Inr [mouse]
      else Inl unknown_input_method)"

definition read_mod :: "string \<Rightarrow> load_error + keymod_t" where
  "read_mod str =
     (if str = ''ctrl'' then Inr ctrl
      else if str = ''alt'' then Inr alt
      else if str = ''shift'' then Inr shift
      else Inl unknown_modifier_name)"

text \<open>One element of \<open>bindings\<close>: the one or two events it stands for.\<close>

definition read_keybinding ::
  "int \<Rightarrow> input_manager \<Rightarrow> json_keybinding \<Rightarrow> load_error + input_event list" where
  "read_keybinding unwritten m keybinding =
     (case new_event_types (jb_input_method keybinding) of
        Inl e \<Rightarrow> Inl e
      | Inr types \<Rightarrow>
          (case map_result read_mod (case jb_mod keybinding of None \<Rightarrow> [] | Some ms \<Rightarrow> ms) of
             Inl e \<Rightarrow> Inl e
           | Inr mods \<Rightarrow>
               Inr (map (\<lambda>t. \<lparr>etype = t, modifiers = set mods,
                              sequence = map (get_keycode unwritten m t)
                                (case jb_key keybinding of
                                   key_array ls \<Rightarrow> ls
                                 | key_string l \<Rightarrow> [l]),
                              mouse_pos = (0, 0)\<rparr>)
                      types)))"

definition read_bindings ::
  "int \<Rightarrow> input_manager \<Rightarrow> json_keybinding list \<Rightarrow> load_error + input_event list" where
  "read_bindings unwritten m keybindings =
     (case map_result (read_keybinding unwritten m) keybindings of
        Inl e \<Rightarrow> Inl e
      | Inr new_events \<Rightarrow> Inr (concat new_events))"

text \<open>The body of the loop of \<open>input_manager::load\<close>: one record of the file.\<close>

definition load_action ::
  "int \<Rightarrow> bool \<Rightarrow> json_action \<Rightarrow> input_manager \<Rightarrow> load_error + input_manager" where
  "load_action unwritten is_user_preferences action m =
     (let version = (if is_user_preferences
                     then (case ja_version action of None \<Rightarrow> 0 | Some v \<Rightarrow> v)
                     else current_keybinding_version)
      in if (case ja_type action of None \<Rightarrow> ''keybinding'' | Some t \<Rightarrow> t) \<noteq> ''keybinding''
         then Inr m
         else
          (let action_id = ja_id action;
               context = (case ja_category action of None \<Rightarrow> default_context_id | Some c \<Rightarrow> c);
               actions0 = context_at (action_contexts m) context;
               actions = (case ja_name action of
                            Some n \<Rightarrow>
                              if \<not> is_user_preferences
                              then actions0(action_id \<mapsto>
                                     (case actions0 action_id of
                                        None \<Rightarrow> new_action_attributes
                                      | Some a \<Rightarrow> a)\<lparr>name := n\<rparr>)
                              else actions0
                          | None \<Rightarrow> actions0)
           in case read_bindings unwritten m (ja_bindings action) of
                Inl e \<Rightarrow> Inl e
              | Inr events \<Rightarrow>
                  if \<not> is_user_preferences \<or> events \<noteq> [] \<or> context = default_context_id
                     \<or> actions action_id \<noteq> None
                  then
                    (let attributes = (case actions action_id of
                                         None \<Rightarrow> new_action_attributes
                                       | Some a \<Rightarrow> a);
                         events' = (if is_user_preferences \<and> version = 0
                                    then events @ filter (\<lambda>evt. etype evt = keyboard_code)
                                                    (input_events attributes)
                                    else events);
                         attributes' = attributes\<lparr>input_events := events'\<rparr>;
                         attributes'' = (case ja_is_user_created action of
                                           None \<Rightarrow> attributes'
                                         | Some b \<Rightarrow> attributes'\<lparr>is_user_created := b\<rparr>)
                     in Inr (m\<lparr>action_contexts :=
                                (action_contexts m)(context \<mapsto> actions(action_id \<mapsto> attributes''))\<rparr>))
                  else Inr (m\<lparr>action_contexts := (action_contexts m)(context \<mapsto> actions)\<rparr>)))"

text \<open>\<open>input_manager::load\<close> on the records of a file that could be opened.\<close>

fun load ::
  "int \<Rightarrow> bool \<Rightarrow> json_action list \<Rightarrow> input_manager \<Rightarrow> load_error + input_manager" where
  "load unwritten is_user_preferences [] m = Inr m"
| "load unwritten is_user_preferences (action # rest) m =
     (case load_action unwritten is_user_preferences action m of
        Inl e \<Rightarrow> Inl e
      | Inr m' \<Rightarrow> load unwritten is_user_preferences rest m')"

section \<open>Binding store: saving\<close>

text \<open>
  \<open>input_manager::save\<close> writes one record for every action of every context. The
  contexts and, within a context, the actions are written in the order in which a
  \<open>std::map\<lt>std::string, ...\<gt>\<close> iterates: by ascending key. The document written is
  the list of its records; for each record the members written are \<open>id\<close>,
  \<open>version\<close>, \<open>category\<close>, \<open>is_user_created\<close> (only when true) and \<open>bindings\<close>, each
  binding with \<open>input_method\<close>, \<open>mod\<close> and an array \<open>key\<close> of portable names. An
  event of a type other than the four device families makes \<open>save\<close> throw, and
  nothing counts as written. The modifiers of an event, a \<open>std::set\<close>, are written in
  the order of the enumeration \<open>keymod_t\<close>, taken to be ctrl, alt, shift (input.h is
  not among the sources). Failures of the file system are not modelled.
\<close>

datatype save_error = unknown_input_event_t

definition sorted_keys :: "(string \<rightharpoonup> 'v) \<Rightarrow> string list" where
  "sorted_keys mp = sorted_list_of_set (dom mp)"

definition save_input_method :: "input_event_t \<Rightarrow> save_error + string" where
  "save_input_method t =
     (case t of
        keyboard_char \<Rightarrow> Inr ''keyboard_char''
      | keyboard_code \<Rightarrow> Inr ''keyboard_code''
      | gamepad \<Rightarrow> Inr ''gamepad''
      | mouse \<Rightarrow> Inr ''mouse''
      | _ \<Rightarrow> Inl unknown_input_event_t)"

definition save_mod :: "keymod_t \<Rightarrow> string" where
  "save_mod md = (case md of ctrl \<Rightarrow> ''ctrl'' | alt \<Rightarrow> ''alt'' | shift \<Rightarrow> ''shift'')"

definition save_event :: "name_resources \<Rightarrow> input_manager \<Rightarrow> input_event \<Rightarrow> save_error + json_keybinding" where
  "save_event nr m event =
     (case save_input_method (etype event) of
        Inl e \<Rightarrow> Inl e
      | Inr input_method \<Rightarrow>
          Inr \<lparr>jb_input_method = input_method,
               jb_mod = Some (map save_mod (filter (\<lambda>md. md \<in> modifiers event) [ctrl, alt, shift])),
               jb_key = key_array (map (\<lambda>ch. get_keyname nr m ch (etype event) True)
                                    (sequence event))\<rparr>)"

definition save_action ::
  "name_resources \<Rightarrow> input_manager \<Rightarrow> string \<Rightarrow> string \<Rightarrow> action_attributes
     \<Rightarrow> save_error + json_action" where
  "save_action nr m context action_id attributes =
     (case map_result (save_event nr m) (input_events attributes) of
        Inl e \<Rightarrow> Inl e
      | Inr bindings \<Rightarrow>
          Inr \<lparr>ja_version = Some current_keybinding_version, ja_type = None,
               ja_id = action_id, ja_category = Some context, ja_name = None,
               ja_bindings = bindings,
               ja_is_user_created = (if is_user_created attributes then Some True else None)\<rparr>)"

text \<open>The entries of the table in the order of iteration.\<close>

definition context_entries :: "string \<Rightarrow> t_actions \<Rightarrow> (string \<times> string \<times> action_attributes) list" where
  "context_entries context actions =
     concat (map (\<lambda>action_id. case actions action_id of
                                None \<Rightarrow> []
                              | Some attributes \<Rightarrow> [(context, action_id, attributes)])
               (sorted_keys actions))"

definition table_entries :: "t_action_contexts \<Rightarrow> (string \<times> string \<times> action_attributes) list" where
  "table_entries ac =
     concat (map (\<lambda>context. case ac context of
                              None \<Rightarrow> []
                            | Some actions \<Rightarrow> context_entries context actions)
               (sorted_keys ac))"

definition save :: "name_resources \<Rightarrow> input_manager \<Rightarrow> save_error + json_action list" where
  "save nr m =
     map_result (\<lambda>(context, action_id, attributes). save_action nr m context action_id attributes)
       (table_entries (action_contexts m))"

section \<open>Binding store: editing\<close>

definition get_or_create_event_list ::
  "t_action_contexts \<Rightarrow> string \<Rightarrow> string \<Rightarrow> t_action_contexts \<times> input_event list" where
  "get_or_create_event_list ac action_descriptor context =
     (let actions = context_at ac context
      in case actions action_descriptor of
           Some attributes \<Rightarrow> (ac(context \<mapsto> actions), input_events attributes)
         | None \<Rightarrow>
             (let ac1 = ac(context \<mapsto> actions(action_descriptor \<mapsto> new_action_attributes));
                  attributes = new_action_attributes
                    \<lparr>name := get_default_action_name ac1 action_descriptor,
                     is_user_created := True\<rparr>
              in (ac(context \<mapsto> actions(action_descriptor \<mapsto> attributes)),
                  input_events attributes)))"

text \<open>Writing through a reference to the attributes of an entry that exists.\<close>

definition update_action ::
  "t_action_contexts \<Rightarrow> string \<Rightarrow> string \<Rightarrow> (action_attributes \<Rightarrow> action_attributes)
     \<Rightarrow> t_action_contexts" where
  "update_action ac c a f =
     (case ac c of
        None \<Rightarrow> ac
      | Some actions \<Rightarrow>
          (case actions a of None \<Rightarrow> ac | Some attributes \<Rightarrow> ac(c \<mapsto> actions(a \<mapsto> f attributes))))"

definition remove_input_for_action ::
  "t_action_contexts \<Rightarrow> string \<Rightarrow> string \<Rightarrow> t_action_contexts" where
  "remove_input_for_action ac action_descriptor context =
     (case ac context of
        None \<Rightarrow> ac
      | Some actions \<Rightarrow>
          (case actions action_descriptor of
             None \<Rightarrow> ac
           | Some action \<Rightarrow>
               if is_user_created action
               then ac(context \<mapsto> actions(action_descriptor := None))
               else if input_events action = []
               then ac(context \<mapsto> actions(action_descriptor := None))
               else ac(context \<mapsto> actions(action_descriptor \<mapsto> action\<lparr>input_events := []\<rparr>))))"

definition add_input_for_action ::
  "t_action_contexts \<Rightarrow> string \<Rightarrow> string \<Rightarrow> input_event \<Rightarrow> t_action_contexts" where
  "add_input_for_action ac action_descriptor context event =
     (case get_or_create_event_list ac action_descriptor context of
        (ac1, events) \<Rightarrow>
          if list_ex (\<lambda>events_a. input_event_eq events_a event) events then ac1
          else update_action ac1 context action_descriptor
                 (\<lambda>attributes. attributes\<lparr>input_events := events @ [event]\<rparr>))"

section \<open>Input session\<close>

datatype keyboard_mode = keycode | keychar

record input_context =
  registered_actions :: "string list"
  category :: string
  registered_any_input :: bool
  handling_coordinate_input :: bool
  next_action :: input_event
  coordinate_input_received :: bool
  coordinate :: "int \<times> int"
  action_name_overrides :: "string \<rightharpoonup> translation"
  preferred_keyboard_mode :: keyboard_mode

definition CATA_ERROR :: string where
  "CATA_ERROR = ''ERROR''"

definition ANY_INPUT :: string where
  "ANY_INPUT = ''ANY_INPUT''"

definition HELP_KEYBINDINGS :: string where
  "HELP_KEYBINDINGS = ''HELP_KEYBINDINGS''"

definition COORDINATE :: string where
  "COORDINATE = ''COORDINATE''"

definition TIMEOUT :: string where
  "TIMEOUT = ''TIMEOUT''"

text \<open>
  The methods of \<open>input_context\<close> below are \<open>const\<close> on the session, but they resolve
  through the global \<open>inp_mngr\<close>, whose table a resolution may extend: each takes the
  table and returns it.
\<close>

definition action_uses_input ::
  "t_action_contexts \<Rightarrow> input_context \<Rightarrow> string \<Rightarrow> input_event \<Rightarrow> t_action_contexts \<times> bool" where
  "action_uses_input ac ctxt action_id event =
     (case get_action_attributes ac action_id (category ctxt) of
        (ac', attributes, _) \<Rightarrow>
          (ac', list_ex (\<lambda>e. input_event_eq e event) (input_events attributes)))"

definition get_action_name ::
  "name_resources \<Rightarrow> t_action_contexts \<Rightarrow> input_context \<Rightarrow> string \<Rightarrow> t_action_contexts \<times> string" where
  "get_action_name nr ac ctxt action_id =
     (case action_name_overrides ctxt action_id of
        Some action_name_override \<Rightarrow> (ac, translated nr action_name_override)
      | None \<Rightarrow>
          (case get_action_attributes ac action_id (category ctxt) of
             (ac1, attributes, _) \<Rightarrow>
               if name attributes \<noteq> [] then (ac1, translated nr (name attributes))
               else
                 (case get_action_attributes ac1 action_id default_context_id of
                    (ac2, default_attributes, _) \<Rightarrow>
                      if name default_attributes \<noteq> []
                      then (ac2, translated nr (name default_attributes))
                      else (ac2, action_id))))"

text \<open>
  Modelled from the spec: \<open>enumerate_as_string\<close> (a template of another file, not
  among the sources) calls the given function on each element in order, drops the empty
  strings, and joins the rest into one enumeration for display; the lambda of
  \<open>get_conflicts\<close> returns the empty string for an action that does not use the event.
\<close>

fun conflict_strings ::
  "name_resources \<Rightarrow> input_context \<Rightarrow> input_event \<Rightarrow> t_action_contexts \<Rightarrow> string list
     \<Rightarrow> t_action_contexts \<times> string list" where
  "conflict_strings nr ctxt event ac [] = (ac, [])"
| "conflict_strings nr ctxt event ac (action # rest) =
     (case action_uses_input ac ctxt action event of
        (ac1, uses) \<Rightarrow>
          (case (if uses then get_action_name nr ac1 ctxt action else (ac1, [])) of
             (ac2, str) \<Rightarrow>
               (case conflict_strings nr ctxt event ac2 rest of
                  (ac3, strs) \<Rightarrow> (ac3, str # strs))))"

definition get_conflicts ::
  "name_resources \<Rightarrow> t_action_contexts \<Rightarrow> input_context \<Rightarrow> input_event
     \<Rightarrow> t_action_contexts \<times> string" where
  "get_conflicts nr ac ctxt event =
     (case conflict_strings nr ctxt event ac (registered_actions ctxt) of
        (ac', strs) \<Rightarrow> (ac', enumeration_of nr (filter (\<lambda>str. str \<noteq> []) strs)))"

definition remove_event :: "input_event \<Rightarrow> action_attributes \<Rightarrow> action_attributes" where
  "remove_event event attributes =
     attributes\<lparr>input_events := filter (\<lambda>e. \<not> input_event_eq e event) (input_events attributes)\<rparr>"

definition clear_conflicting_keybindings ::
  "t_action_contexts \<Rightarrow> input_context \<Rightarrow> input_event \<Rightarrow> t_action_contexts" where
  "clear_conflicting_keybindings ac ctxt event =
     (let ac1 = ac(default_context_id \<mapsto> context_at ac default_context_id);
          ac2 = ac1(category ctxt \<mapsto> context_at ac1 (category ctxt))
      in fold (\<lambda>registered_action tbl.
                 update_action
                   (update_action tbl default_context_id registered_action (remove_event event))
                   (category ctxt) registered_action (remove_event event))
           (registered_actions ctxt) ac2)"

fun input_to_action_loop ::
  "t_action_contexts \<Rightarrow> string \<Rightarrow> input_event \<Rightarrow> string list \<Rightarrow> t_action_contexts \<times> string" where
  "input_to_action_loop ac cat inp [] = (ac, CATA_ERROR)"
| "input_to_action_loop ac cat inp (action # rest) =
     (case get_input_for_action ac action cat of
        (ac', check_inp) \<Rightarrow>
          if list_ex (\<lambda>check_inp_i. input_event_eq check_inp_i inp) check_inp
          then (ac', action)
          else input_to_action_loop ac' cat inp rest)"

definition input_to_action ::
  "t_action_contexts \<Rightarrow> input_context \<Rightarrow> input_event \<Rightarrow> t_action_contexts \<times> string" where
  "input_to_action ac ctxt inp =
     input_to_action_loop ac (category ctxt) inp (registered_actions ctxt)"

section \<open>The blocking read-and-resolve loop\<close>

text \<open>
  Modelled from the spec: \<open>input_manager::get_timeout\<close>, \<open>set_timeout\<close> and
  \<open>reset_timeout\<close> are defined with the platform back ends, not among the sources.
  The timeout is a duration the manager holds; the negative sentinel \<open>-1\<close> disables it.
\<close>

definition get_timeout :: "input_manager \<Rightarrow> int" where
  "get_timeout m = input_timeout m"

definition set_timeout :: "int \<Rightarrow> input_manager \<Rightarrow> input_manager" where
  "set_timeout t m = m\<lparr>input_timeout := t\<rparr>"

definition reset_timeout :: "input_manager \<Rightarrow> input_manager" where
  "reset_timeout m = set_timeout (- 1) m"

text \<open>
  The outcome of \<open>handle_input\<close>: the manager and the session after the call, the events
  the event source still holds, the action returned, and \<open>hi_waits\<close>, the manager's
  timeout in force at each \<open>get_input_event\<close> of this call (what the event pump waits
  with), in order.
\<close>

record handle_input_result =
  hi_manager :: input_manager
  hi_context :: input_context
  hi_pending :: "input_event list"
  hi_action :: string
  hi_waits :: "int list"

text \<open>
  The \<open>while( true )\<close> of \<open>handle_input\<close>. The event source is the list of the events it
  will yield; \<open>get_input_event\<close> takes the first. When the events run out before the
  loop breaks, the call blocks for ever: \<open>None\<close>. The keybindings editor
  \<open>display_menu\<close> is interactive: it is the parameter \<open>menu\<close>, which may change the
  manager, consume events, and not return.
\<close>

fun handle_input_loop ::
  "(input_manager \<Rightarrow> input_context \<Rightarrow> input_event list \<Rightarrow> (input_manager \<times> input_event list) option)
     \<Rightarrow> int \<Rightarrow> input_manager \<Rightarrow> input_context \<Rightarrow> int list \<Rightarrow> input_event list
     \<Rightarrow> handle_input_result option" where
  "handle_input_loop menu timeout_arg m ctxt waits [] = None"
| "handle_input_loop menu timeout_arg m ctxt waits (ev # pending) =
     (let ctxt1 = ctxt\<lparr>next_action := ev\<rparr>;
          waits1 = waits @ [get_timeout m]
      in if etype ev = timeout
         then Some \<lparr>hi_manager = m, hi_context = ctxt1, hi_pending = pending,
                    hi_action = TIMEOUT, hi_waits = waits1\<rparr>
         else
          (case input_to_action (action_contexts m) ctxt1 ev of
             (ac1, action) \<Rightarrow>
               (let m1 = m\<lparr>action_contexts := ac1\<rparr>
                in if action = ''HELP_KEYBINDINGS''
                   then
                    (case menu (reset_timeout m1) ctxt1 pending of
                       None \<Rightarrow> None
                     | Some (m2, pending2) \<Rightarrow>
                         Some \<lparr>hi_manager = set_timeout timeout_arg m2, hi_context = ctxt1,
                               hi_pending = pending2, hi_action = HELP_KEYBINDINGS,
                               hi_waits = waits1\<rparr>)
                   else if etype ev = mouse \<and> \<not> handling_coordinate_input ctxt1
                           \<and> action = CATA_ERROR
                   then handle_input_loop menu timeout_arg m1 ctxt1 waits1 pending
                   else
                    (let ctxt2 = (if etype ev = mouse
                                  then ctxt1\<lparr>coordinate_input_received := True,
                                             coordinate := mouse_pos ev\<rparr>
                                  else ctxt1\<lparr>coordinate_input_received := False\<rparr>)
                     in if action \<noteq> CATA_ERROR
                        then Some \<lparr>hi_manager = m1, hi_context = ctxt2, hi_pending = pending,
                                   hi_action = action, hi_waits = waits1\<rparr>
                        else if registered_any_input ctxt2
                        then Some \<lparr>hi_manager = m1, hi_context = ctxt2, hi_pending = pending,
                                   hi_action = ANY_INPUT, hi_waits = waits1\<rparr>
                        else handle_input_loop menu timeout_arg m1 ctxt2 waits1 pending))))"

definition handle_input ::
  "(input_manager \<Rightarrow> input_context \<Rightarrow> input_event list \<Rightarrow> (input_manager \<times> input_event list) option)
     \<Rightarrow> int \<Rightarrow> input_manager \<Rightarrow> input_context \<Rightarrow> input_event list
     \<Rightarrow> handle_input_result option" where
  "handle_input menu timeout_arg m ctxt pending =
     (let old_timeout = get_timeout m;
          m0 = (if timeout_arg \<ge> 0 then set_timeout timeout_arg m else m);
          ctxt0 = ctxt\<lparr>next_action := (next_action ctxt)\<lparr>etype := error\<rparr>\<rparr>
      in case handle_input_loop menu timeout_arg m0 ctxt0 [] pending of
           None \<Rightarrow> None
         | Some r \<Rightarrow> Some (r\<lparr>hi_manager := set_timeout old_timeout (hi_manager r)\<rparr>))"

section \<open>Editing protocol of the keybindings editor\<close>

datatype edit_status = s_remove | s_add | s_add_global | s_execute | s_show

text \<open>
  The step of \<open>display_menu\<close> taken when the operator picks the action \<open>action_id\<close> by
  its hotkey while the editor is removing or adding (the \<open>ANY_INPUT\<close> branch). The
  operator's answers are parameters: \<open>removal_confirmed\<close> (the option
  \<open>QUERY_KEYBIND_REMOVAL\<close> is off, or the query was answered yes), \<open>new_event\<close> (the
  key read by \<open>query_popup\<close>) and \<open>conflicts_confirmed\<close> (the answer to "This key
  conflicts with ..."). The result is the table and whether \<open>changed\<close> was set.
\<close>

definition editor_select ::
  "name_resources \<Rightarrow> input_context \<Rightarrow> edit_status \<Rightarrow> bool \<Rightarrow> input_event \<Rightarrow> bool
     \<Rightarrow> t_action_contexts \<Rightarrow> string \<Rightarrow> t_action_contexts \<times> bool" where
  "editor_select nr ctxt status removal_confirmed new_event conflicts_confirmed ac action_id =
     (case get_action_attributes ac action_id (category ctxt) of
        (ac1, actions, is_local) \<Rightarrow>
          (let is_empty = (input_events actions = [])
           in case get_action_name nr ac1 ctxt action_id of
                (ac2, nm) \<Rightarrow>
                  if status = s_remove \<and> (is_local \<or> \<not> is_empty)
                  then
                    (if removal_confirmed
                     then (remove_input_for_action ac2 action_id
                             (if \<not> is_local then default_context_id else category ctxt), True)
                     else (ac2, False))
                  else if status = s_add_global \<and> is_local then (ac2, False)
                  else if status = s_add \<or> status = s_add_global
                  then
                    (case action_uses_input ac2 ctxt action_id new_event of
                       (ac3, used) \<Rightarrow>
                         if used then (ac3, False)
                         else
                          (case get_conflicts nr ac3 ctxt new_event of
                             (ac4, conflicts) \<Rightarrow>
                               (let has_conflicts = (conflicts \<noteq> []);
                                    resolve_conflicts = (has_conflicts \<and> conflicts_confirmed)
                                in if \<not> has_conflicts \<or> resolve_conflicts
                                   then
                                    (add_input_for_action
                                       (if resolve_conflicts
                                        then clear_conflicting_keybindings ac4 ctxt new_event
                                        else ac4)
                                       action_id
                                       (if status = s_add_global then default_context_id
                                        else category ctxt)
                                       new_event, True)
                                   else (ac4, False))))
                  else (ac2, False)))"

section \<open>Auxiliary notions for the proofs\<close>

text \<open>
  Two tables resolve alike when every resolution returns the same attributes and the
  same is_local in both. A resolution may extend the table, but the extended table
  resolves like the one before.
\<close>

definition same_resolution :: "t_action_contexts \<Rightarrow> t_action_contexts \<Rightarrow> bool" where
  "same_resolution ac ac' \<longleftrightarrow>
     (\<forall>a c. snd (get_action_attributes ac' a c) = snd (get_action_attributes ac a c))"

text \<open>
  The name registered for a code and the code registered for a name in the tables of
  a device family; nothing is registered for \<open>timeout\<close> and \<open>error\<close>, which have no
  tables.
\<close>

definition registered_name :: "input_manager \<Rightarrow> input_event_t \<Rightarrow> int \<Rightarrow> string option" where
  "registered_name m inp_type ch =
     (case keycode_to_keyname_map m inp_type of None \<Rightarrow> None | Some mp \<Rightarrow> mp ch)"

definition registered_code :: "input_manager \<Rightarrow> input_event_t \<Rightarrow> string \<Rightarrow> int option" where
  "registered_code m inp_type nm =
     (case keyname_to_keycode_map m inp_type of None \<Rightarrow> None | Some mp \<Rightarrow> mp nm)"

text \<open>
  How the entries of the table may differ after the resolving and conflict-clearing
  steps of the editor: an entry that existed still exists, with its display name and
  its user-created flag; an entry that did not exist may exist now only in the
  "default" context, and then it is not marked user-created.
\<close>

definition entry_steady ::
  "bool \<Rightarrow> action_attributes option \<Rightarrow> action_attributes option \<Rightarrow> bool" where
  "entry_steady in_default before after \<longleftrightarrow>
     (case before of
        Some x \<Rightarrow>
          (case after of
             Some y \<Rightarrow> name y = name x \<and> is_user_created y = is_user_created x
           | None \<Rightarrow> False)
      | None \<Rightarrow>
          (case after of
             None \<Rightarrow> True
           | Some y \<Rightarrow> in_default \<and> \<not> is_user_created y))"

definition steady :: "t_action_contexts \<Rightarrow> t_action_contexts \<Rightarrow> bool" where
  "steady ac ac' \<longleftrightarrow>
     (\<forall>c a. entry_steady (c = default_context_id) (find_action ac c a) (find_action ac' c a))"

text \<open>
  A \<open>std::map\<close> holds finitely many keys: the tables of the program are the finite ones.
\<close>

definition finite_table :: "t_action_contexts \<Rightarrow> bool" where
  "finite_table ac \<longleftrightarrow>
     finite (dom ac) \<and> (\<forall>c actions. ac c = Some actions \<longrightarrow> finite (dom actions))"

section \<open>Properties of the context resolver\<close>

lemma find_action_upd_context:
  "find_action (ac(c \<mapsto> m)) c' a = (if c' = c then m a else find_action ac c' a)"
  by (simp add: find_action_def)

lemma context_at_find: "context_at ac c a = find_action ac c a"
  by (simp add: context_at_def find_action_def split: option.splits)

text \<open>What a resolution returns, in terms of the entries of the table before the call.\<close>

lemma get_action_attributes_result:
  "snd (get_action_attributes ac a c) =
     (case (if c \<noteq> default_context_id then find_action ac c a else None) of
        Some x \<Rightarrow> (x, True)
      | None \<Rightarrow>
          (case find_action ac default_context_id a of
             Some x \<Rightarrow> (x, False)
           | None \<Rightarrow> (new_action_attributes\<lparr>name := no_translation a\<rparr>, False)))"
  by (simp add: get_action_attributes_def get_default_action_name_def context_at_find
      Let_def split: option.splits)

text \<open>The entries of the table after a resolution.\<close>

lemma get_action_attributes_table:
  "find_action (fst (get_action_attributes ac b d)) c a =
     (if c = default_context_id \<and> a = b
         \<and> (d = default_context_id \<or> find_action ac d b = None)
         \<and> find_action ac default_context_id b = None
      then Some (new_action_attributes\<lparr>name := no_translation b\<rparr>)
      else find_action ac c a)"
  by (auto simp add: get_action_attributes_def get_default_action_name_def context_at_find
      find_action_upd_context Let_def split: option.splits)

text \<open>
  C1: for a context \<open>c\<close> other than "default": if \<open>c\<close> exists and has an entry for the
  action id, the resolution returns that entry with is_local = true (and leaves the
  table as it is); otherwise it returns the entry of the action id in the "default"
  context, which is the entry found there before the call when there was one, and
  is_local = false.
\<close>

theorem C1_resolve_local_or_default:
  "c \<noteq> default_context_id \<Longrightarrow>
     (case find_action ac c a of
        Some entry \<Rightarrow> get_action_attributes ac a c = (ac, entry, True)
      | None \<Rightarrow>
          (case get_action_attributes ac a c of
             (ac', attributes, is_local) \<Rightarrow>
               is_local = False
               \<and> find_action ac' default_context_id a = Some attributes
               \<and> (\<forall>entry. find_action ac default_context_id a = Some entry
                     \<longrightarrow> attributes = entry)))"
  by (auto simp add: get_action_attributes_def context_at_find find_action_upd_context
      Let_def split: option.splits)

theorem C1_resolve_local_or_default_witness:
  "''vehicle'' \<noteq> default_context_id
   \<and> get_action_attributes
        [''default'' \<mapsto> [''UP'' \<mapsto> \<lparr>name = ''Up'', input_events = [], is_user_created = False\<rparr>],
         ''vehicle'' \<mapsto> [''UP'' \<mapsto> \<lparr>name = ''Steer'', input_events = [], is_user_created = True\<rparr>]]
        ''UP'' ''vehicle''
     = ([''default'' \<mapsto> [''UP'' \<mapsto> \<lparr>name = ''Up'', input_events = [], is_user_created = False\<rparr>],
         ''vehicle'' \<mapsto> [''UP'' \<mapsto> \<lparr>name = ''Steer'', input_events = [], is_user_created = True\<rparr>]],
        \<lparr>name = ''Steer'', input_events = [], is_user_created = True\<rparr>, True)"
  using C1_resolve_local_or_default
    [where c = "''vehicle''" and a = "''UP''" and ac =
        "[''default'' \<mapsto> [''UP'' \<mapsto> \<lparr>name = ''Up'', input_events = [], is_user_created = False\<rparr>],
          ''vehicle'' \<mapsto> [''UP'' \<mapsto> \<lparr>name = ''Steer'', input_events = [], is_user_created = True\<rparr>]]"]
  by (simp add: find_action_def default_context_id_def)

lemma resolve_falls_through:
  "c \<noteq> default_context_id \<Longrightarrow> find_action ac c a = None \<Longrightarrow>
     (case get_action_attributes ac a c of
        (ac', attributes, is_local) \<Rightarrow>
          is_local = False
          \<and> find_action ac' default_context_id a = Some attributes
          \<and> (\<forall>entry. find_action ac default_context_id a = Some entry
                \<longrightarrow> attributes = entry))"
  by (auto simp add: get_action_attributes_def context_at_find find_action_upd_context
      Let_def split: option.splits)

lemma get_action_attributes_existing_default:
  "find_action ac default_context_id a = Some x \<Longrightarrow>
   c = default_context_id \<or> find_action ac c a = None \<Longrightarrow>
   get_action_attributes ac a c = (ac, x, False)"
  by (auto simp add: get_action_attributes_def find_action_def context_at_def map_upd_triv
      split: option.splits)

text \<open>What \<open>save\<close> writes, in terms of the entries of the table.\<close>

lemma map_result_Inr_mem:
  "map_result f xs = Inr ys \<Longrightarrow> x \<in> set xs \<Longrightarrow> \<exists>y. f x = Inr y \<and> y \<in> set ys"
proof (induction xs arbitrary: ys)
  case Nil
  then show ?case by simp
next
  case (Cons z zs)
  from Cons.prems(1) obtain y0 ys0 where z: "f z = Inr y0" and zs: "map_result f zs = Inr ys0"
    and ys: "ys = y0 # ys0"
    by (auto split: sum.splits)
  show ?case
  proof (cases "x = z")
    case True
    with z ys show ?thesis by simp
  next
    case False
    with Cons.prems(2) have "x \<in> set zs" by simp
    from Cons.IH [OF zs this] ys show ?thesis by auto
  qed
qed

lemma map_result_Inl:
  "map_result f xs = Inl e \<Longrightarrow> \<exists>x \<in> set xs. f x = Inl e"
  by (induction xs) (auto split: sum.splits)

lemma set_sorted_keys: "finite (dom mp) \<Longrightarrow> set (sorted_keys mp) = dom mp"
  by (simp add: sorted_keys_def)

lemma context_entries_mem:
  "finite (dom actions) \<Longrightarrow>
     (c', a, attributes) \<in> set (context_entries c actions)
       \<longleftrightarrow> c' = c \<and> actions a = Some attributes"
  by (auto simp add: context_entries_def set_sorted_keys split: option.splits)

lemma table_entries_mem:
  assumes "finite_table ac"
  shows "(c, a, attributes) \<in> set (table_entries ac) \<longleftrightarrow> find_action ac c a = Some attributes"
proof -
  from assms have fin: "finite (dom ac)"
    and fins: "\<And>c actions. ac c = Some actions \<Longrightarrow> finite (dom actions)"
    by (simp_all add: finite_table_def)
  show ?thesis
  proof
    assume "(c, a, attributes) \<in> set (table_entries ac)"
    then obtain c0 actions where c0: "ac c0 = Some actions"
      and mem: "(c, a, attributes) \<in> set (context_entries c0 actions)"
      by (auto simp add: table_entries_def set_sorted_keys fin split: option.splits)
    from mem fins [OF c0] have "c = c0 \<and> actions a = Some attributes"
      by (simp add: context_entries_mem)
    with c0 show "find_action ac c a = Some attributes"
      by (simp add: find_action_def)
  next
    assume "find_action ac c a = Some attributes"
    then obtain actions where c0: "ac c = Some actions" and a: "actions a = Some attributes"
      by (auto simp add: find_action_def split: option.splits)
    from a fins [OF c0] have "(c, a, attributes) \<in> set (context_entries c actions)"
      by (simp add: context_entries_mem)
    moreover from c0 have "c \<in> dom ac" by blast
    ultimately show "(c, a, attributes) \<in> set (table_entries ac)"
      using c0 by (auto simp add: table_entries_def set_sorted_keys fin intro!: bexI [where x = c])
  qed
qed

lemma finite_table_upd:
  "finite_table ac \<Longrightarrow> finite (dom actions) \<Longrightarrow> finite_table (ac(c \<mapsto> actions))"
  by (simp add: finite_table_def)

lemma finite_context_at: "finite_table ac \<Longrightarrow> finite (dom (context_at ac c))"
  by (simp add: finite_table_def context_at_def split: option.splits)

lemma finite_table_get_action_attributes:
  assumes "finite_table ac"
  shows "finite_table (fst (get_action_attributes ac a c))"
proof -
  have d: "finite (dom (context_at ac default_context_id))"
    using assms by (rule finite_context_at)
  have t1: "finite_table (ac(default_context_id \<mapsto> context_at ac default_context_id))"
    using assms d by (rule finite_table_upd)
  have t2: "finite_table (ac(default_context_id \<mapsto> (context_at ac default_context_id)(a \<mapsto> x)))"
    for x
    using assms d by (simp add: finite_table_upd)
  show ?thesis
    using assms t1 t2
    by (simp add: get_action_attributes_def Let_def split: option.splits)
qed

lemma save_event_Inl:
  "save_event nr m event = Inl e \<longleftrightarrow> save_input_method (etype event) = Inl e"
  by (simp add: save_event_def split: sum.splits)

lemma save_action_Inl:
  "save_action nr m c a attributes = Inl e \<Longrightarrow>
     \<exists>event \<in> set (input_events attributes). save_input_method (etype event) = Inl e"
proof -
  assume "save_action nr m c a attributes = Inl e"
  then have "map_result (save_event nr m) (input_events attributes) = Inl e"
    by (simp add: save_action_def split: sum.splits)
  then have "\<exists>event \<in> set (input_events attributes). save_event nr m event = Inl e"
    by (rule map_result_Inl)
  then show ?thesis
    by (simp add: save_event_Inl)
qed

lemma save_Inr_mem:
  assumes "finite_table (action_contexts m)"
    and "find_action (action_contexts m) c a = Some attributes"
    and "save nr m = Inr records"
  shows "\<exists>r. save_action nr m c a attributes = Inr r \<and> r \<in> set records"
proof -
  from assms(1,2) have "(c, a, attributes) \<in> set (table_entries (action_contexts m))"
    by (simp add: table_entries_mem)
  from map_result_Inr_mem [OF assms(3) [unfolded save_def] this]
  show ?thesis by simp
qed

lemma save_Inl_entry:
  assumes "finite_table (action_contexts m)"
    and "save nr m = Inl e"
  shows "\<exists>c a attributes event. find_action (action_contexts m) c a = Some attributes
            \<and> event \<in> set (input_events attributes)
            \<and> save_input_method (etype event) = Inl e"
proof -
  from map_result_Inl [OF assms(2) [unfolded save_def]]
  obtain c a attributes where mem: "(c, a, attributes) \<in> set (table_entries (action_contexts m))"
    and inl: "save_action nr m c a attributes = Inl e"
    by auto
  from mem assms(1) have "find_action (action_contexts m) c a = Some attributes"
    by (simp add: table_entries_mem)
  with save_action_Inl [OF inl] show ?thesis by blast
qed


text \<open>
  C2, as the code has it: for an action id with no entry in any context, the first
  resolution creates an entry in the "default" context with an empty event list, not
  marked user-created, whose display name is the action id itself (so non-empty
  whenever the action id is non-empty); the entry is part of the table afterwards, and
  a second resolution of the same action id, in any context, returns that same entry
  and leaves the table as it is. A \<open>save\<close> of the table after the resolution writes
  the record of the entry (its id, the category "default", no bindings) among the
  records of its output; \<open>save\<close> throws instead of writing only if an entry that the
  table had before the resolution holds an event that is of none of the four device
  families. For \<open>save\<close> the table is a finite one, as every \<open>std::map\<close> is.
\<close>

theorem C2_materialize:
  assumes "\<forall>c'. find_action ac c' a = None"
  shows "case get_action_attributes ac a c of
        (ac1, entry, is_local) \<Rightarrow>
          entry = \<lparr>name = a, input_events = [], is_user_created = False\<rparr>
          \<and> (a \<noteq> [] \<longrightarrow> name entry \<noteq> [])
          \<and> find_action ac1 default_context_id a = Some entry
          \<and> (\<forall>c2. get_action_attributes ac1 a c2 = (ac1, entry, False))
          \<and> (finite_table ac \<longrightarrow>
               (case save nr (m\<lparr>action_contexts := ac1\<rparr>) of
                  Inr records \<Rightarrow>
                    \<lparr>ja_version = Some current_keybinding_version, ja_type = None, ja_id = a,
                      ja_category = Some default_context_id, ja_name = None, ja_bindings = [],
                      ja_is_user_created = None\<rparr> \<in> set records
                | Inl e \<Rightarrow>
                    (\<exists>c' a' attributes event.
                        find_action ac c' a' = Some attributes
                        \<and> event \<in> set (input_events attributes)
                        \<and> save_input_method (etype event) = Inl e)))"
proof -
  obtain ac1 entry is_local where g: "get_action_attributes ac a c = (ac1, entry, is_local)"
    by (cases "get_action_attributes ac a c") auto
  from assms have none: "find_action ac c a = None" "find_action ac default_context_id a = None"
    by simp_all
  have "snd (get_action_attributes ac a c)
          = (\<lparr>name = a, input_events = [], is_user_created = False\<rparr>, False)"
    by (simp add: get_action_attributes_result none new_action_attributes_def no_translation_def)
  with g have entry: "entry = \<lparr>name = a, input_events = [], is_user_created = False\<rparr>"
    by simp
  have "find_action (fst (get_action_attributes ac a c)) c' a
          = (if c' = default_context_id then Some entry else None)" for c'
    by (simp add: get_action_attributes_table none assms entry new_action_attributes_def
        no_translation_def)
  with g have tbl: "find_action ac1 c' a = (if c' = default_context_id then Some entry else None)"
    for c'
    by simp
  have again: "get_action_attributes ac1 a c2 = (ac1, entry, False)" for c2
    by (rule get_action_attributes_existing_default) (simp_all add: tbl)
  have others: "find_action ac1 c' a' = find_action ac c' a'" if "a' \<noteq> a" for c' a'
    using get_action_attributes_table [of ac a c c' a'] g that by simp
  define written where "written = \<lparr>ja_version = Some current_keybinding_version,
    ja_type = None, ja_id = a, ja_category = Some default_context_id, ja_name = None,
    ja_bindings = ([] :: json_keybinding list), ja_is_user_created = None\<rparr>"
  have rec: "save_action nr m' default_context_id a entry = Inr written" for m'
    by (simp add: save_action_def entry written_def)
  have saved: "case save nr (m\<lparr>action_contexts := ac1\<rparr>) of
                 Inr records \<Rightarrow> written \<in> set records
               | Inl e \<Rightarrow>
                   (\<exists>c' a' attributes event.
                       find_action ac c' a' = Some attributes
                       \<and> event \<in> set (input_events attributes)
                       \<and> save_input_method (etype event) = Inl e)"
    if fin: "finite_table ac"
  proof -
    have "finite_table (fst (get_action_attributes ac a c))"
      using fin by (rule finite_table_get_action_attributes)
    with g have fin1: "finite_table (action_contexts (m\<lparr>action_contexts := ac1\<rparr>))"
      by simp
    have here: "find_action (action_contexts (m\<lparr>action_contexts := ac1\<rparr>)) default_context_id a
                  = Some entry"
      by (simp add: tbl)
    show ?thesis
    proof (cases "save nr (m\<lparr>action_contexts := ac1\<rparr>)")
      case (Inr records)
      from save_Inr_mem [OF fin1 here Inr] have "written \<in> set records"
        by (simp add: rec)
      with Inr show ?thesis by simp
    next
      case (Inl e)
      from save_Inl_entry [OF fin1 Inl]
      obtain c' a' attributes event where f: "find_action ac1 c' a' = Some attributes"
        and ev: "event \<in> set (input_events attributes)"
        and bad: "save_input_method (etype event) = Inl e"
        by auto
      have "a' \<noteq> a"
      proof
        assume "a' = a"
        with f tbl [of c'] have "attributes = entry"
          by (simp split: if_splits)
        with ev entry show False by simp
      qed
      with f have "find_action ac c' a' = Some attributes"
        by (simp add: others)
      with ev bad Inl show ?thesis by auto
    qed
  qed
  show ?thesis
    using g entry tbl again saved unfolding written_def by simp
qed

theorem C2_materialize_witness:
  "(\<forall>c'. find_action Map.empty c' ''QUIT'' = None)
   \<and> finite_table Map.empty
   \<and> (case get_action_attributes Map.empty ''QUIT'' ''vehicle'' of
        (ac1, entry, is_local) \<Rightarrow>
          entry = \<lparr>name = ''QUIT'', input_events = [], is_user_created = False\<rparr>
          \<and> name entry \<noteq> []
          \<and> find_action ac1 default_context_id ''QUIT'' = Some entry
          \<and> get_action_attributes ac1 ''QUIT'' ''vehicle'' = (ac1, entry, False)
          \<and> save plain_resources (empty_manager\<lparr>action_contexts := ac1\<rparr>)
              = Inr [\<lparr>ja_version = Some 1, ja_type = None, ja_id = ''QUIT'',
                      ja_category = Some ''default'', ja_name = None, ja_bindings = [],
                      ja_is_user_created = None\<rparr>])"
proof -
  have h: "\<forall>c'. find_action Map.empty c' ''QUIT'' = None"
    by (simp add: find_action_def)
  have fin: "finite_table Map.empty"
    by (simp add: finite_table_def)
  have tbl: "fst (get_action_attributes Map.empty ''QUIT'' ''vehicle'')
               = [''default'' \<mapsto> [''QUIT'' \<mapsto>
                    \<lparr>name = ''QUIT'', input_events = [], is_user_created = False\<rparr>]]"
    by (simp add: get_action_attributes_def get_default_action_name_def context_at_def
        find_action_def new_action_attributes_def no_translation_def default_context_id_def
        Let_def)
  have sv: "save plain_resources (empty_manager\<lparr>action_contexts :=
              [''default'' \<mapsto> [''QUIT'' \<mapsto>
                 \<lparr>name = ''QUIT'', input_events = [], is_user_created = False\<rparr>]]\<rparr>)
            = Inr [\<lparr>ja_version = Some 1, ja_type = None, ja_id = ''QUIT'',
                    ja_category = Some ''default'', ja_name = None, ja_bindings = [],
                    ja_is_user_created = None\<rparr>]"
    by (simp add: save_def table_entries_def context_entries_def sorted_keys_def
        save_action_def current_keybinding_version_def)
  show ?thesis
    using h fin tbl sv
      C2_materialize [OF h, where c = "''vehicle''" and nr = plain_resources
        and m = empty_manager]
    by (auto split: prod.splits)
qed

text \<open>
  The claim C2 as it is written promises a non-empty synthesized name for every action
  id: for the empty action id, which has no entry in the empty table, the entry created
  has the empty name.
\<close>

theorem C2_empty_action_id_counterexample:
  "\<not> name (fst (snd (get_action_attributes Map.empty [] default_context_id))) \<noteq> []"
  by (simp add: get_action_attributes_def get_default_action_name_def context_at_def
      new_action_attributes_def no_translation_def Let_def)

section \<open>Properties of the editing operations\<close>

lemma find_action_remove_input_for_action:
  "find_action (remove_input_for_action ac a c) c' a' =
     (if c' = c \<and> a' = a
      then (case find_action ac c a of
              None \<Rightarrow> None
            | Some entry \<Rightarrow>
                if is_user_created entry \<or> input_events entry = [] then None
                else Some (entry\<lparr>input_events := []\<rparr>))
      else find_action ac c' a')"
  by (auto simp add: remove_input_for_action_def find_action_def split: option.splits)

text \<open>
  C7: \<open>remove_input_for_action\<close> on an entry that exists deletes the entry when it is
  marked user-created; otherwise it deletes the entry when its event list is empty
  and clears the event list, keeping the entry, when the list is non-empty. No other
  entry changes. After a user-created entry of a context other than "default" is
  deleted, resolving the action id in that context reports is_local = false and
  returns the entry of the "default" context (the global binding, when there is one).
\<close>

theorem C7_remove_input_for_action:
  "find_action ac c a = Some entry \<Longrightarrow>
     (is_user_created entry \<longrightarrow> find_action (remove_input_for_action ac a c) c a = None)
   \<and> (\<not> is_user_created entry \<and> input_events entry = []
        \<longrightarrow> find_action (remove_input_for_action ac a c) c a = None)
   \<and> (\<not> is_user_created entry \<and> input_events entry \<noteq> []
        \<longrightarrow> find_action (remove_input_for_action ac a c) c a
              = Some (entry\<lparr>input_events := []\<rparr>))
   \<and> (\<forall>c' a'. (c', a') \<noteq> (c, a)
        \<longrightarrow> find_action (remove_input_for_action ac a c) c' a' = find_action ac c' a')
   \<and> (is_user_created entry \<and> c \<noteq> default_context_id
        \<longrightarrow> (case get_action_attributes (remove_input_for_action ac a c) a c of
               (ac', attributes, is_local) \<Rightarrow>
                 is_local = False
                 \<and> find_action ac' default_context_id a = Some attributes
                 \<and> (\<forall>global. find_action ac default_context_id a = Some global
                       \<longrightarrow> attributes = global)))"
proof -
  assume e: "find_action ac c a = Some entry"
  let ?ac = "remove_input_for_action ac a c"
  have fall: "case get_action_attributes ?ac a c of
               (ac', attributes, is_local) \<Rightarrow>
                 is_local = False
                 \<and> find_action ac' default_context_id a = Some attributes
                 \<and> (\<forall>global. find_action ac default_context_id a = Some global
                       \<longrightarrow> attributes = global)"
    if u: "is_user_created entry" and c: "c \<noteq> default_context_id"
  proof -
    have gone: "find_action ?ac c a = None"
      using e u by (simp add: find_action_remove_input_for_action)
    have same: "find_action ?ac default_context_id a = find_action ac default_context_id a"
      using c by (simp add: find_action_remove_input_for_action)
    show ?thesis
      using resolve_falls_through [of c ?ac a] c gone same by (auto split: prod.splits)
  qed
  show ?thesis
    using e fall by (auto simp add: find_action_remove_input_for_action)
qed

theorem C7_remove_input_for_action_witness:
  "find_action
     [''default'' \<mapsto> [''UP'' \<mapsto> \<lparr>name = ''Up'', input_events = [], is_user_created = False\<rparr>],
      ''vehicle'' \<mapsto> [''UP'' \<mapsto> \<lparr>name = ''Steer'', input_events = [], is_user_created = True\<rparr>]]
     ''vehicle'' ''UP''
     = Some \<lparr>name = ''Steer'', input_events = [], is_user_created = True\<rparr>
   \<and> find_action
       (remove_input_for_action
          [''default'' \<mapsto> [''UP'' \<mapsto> \<lparr>name = ''Up'', input_events = [], is_user_created = False\<rparr>],
           ''vehicle'' \<mapsto> [''UP'' \<mapsto> \<lparr>name = ''Steer'', input_events = [], is_user_created = True\<rparr>]]
          ''UP'' ''vehicle'')
       ''vehicle'' ''UP'' = None
   \<and> snd (get_action_attributes
       (remove_input_for_action
          [''default'' \<mapsto> [''UP'' \<mapsto> \<lparr>name = ''Up'', input_events = [], is_user_created = False\<rparr>],
           ''vehicle'' \<mapsto> [''UP'' \<mapsto> \<lparr>name = ''Steer'', input_events = [], is_user_created = True\<rparr>]]
          ''UP'' ''vehicle'')
       ''UP'' ''vehicle'')
     = (\<lparr>name = ''Up'', input_events = [], is_user_created = False\<rparr>, False)"
proof -
  let ?tbl = "[''default'' \<mapsto> [''UP'' \<mapsto> \<lparr>name = ''Up'', input_events = [], is_user_created = False\<rparr>],
      ''vehicle'' \<mapsto> [''UP'' \<mapsto> \<lparr>name = ''Steer'', input_events = [], is_user_created = True\<rparr>]]"
  have h: "find_action ?tbl ''vehicle'' ''UP''
             = Some \<lparr>name = ''Steer'', input_events = [], is_user_created = True\<rparr>"
    by (simp add: find_action_def)
  have g: "find_action ?tbl default_context_id ''UP''
             = Some \<lparr>name = ''Up'', input_events = [], is_user_created = False\<rparr>"
    by (simp add: find_action_def default_context_id_def)
  show ?thesis
    using h g C7_remove_input_for_action [OF h]
    by (auto simp add: default_context_id_def split: prod.splits)
qed

section \<open>Properties of the input session\<close>

lemma resolution_stable:
  "snd (get_action_attributes (fst (get_action_attributes ac b d)) a c)
     = snd (get_action_attributes ac a c)"
  by (simp add: get_action_attributes_result get_action_attributes_table split: option.splits)

lemma get_input_for_action_eq:
  "get_input_for_action ac a c
     = (fst (get_action_attributes ac a c),
        input_events (fst (snd (get_action_attributes ac a c))))"
  by (simp add: get_input_for_action_def split: prod.splits)

lemma input_to_action_loop_find:
  "snd (input_to_action_loop ac cat e regs) =
     (case find (\<lambda>a. list_ex (\<lambda>b. input_event_eq b e)
                        (input_events (fst (snd (get_action_attributes ac a cat))))) regs of
        None \<Rightarrow> CATA_ERROR
      | Some a \<Rightarrow> a)"
proof (induction regs arbitrary: ac)
  case Nil
  show ?case by simp
next
  case (Cons action rest)
  let ?ac' = "fst (get_action_attributes ac action cat)"
  have same: "snd (get_action_attributes ?ac' a cat) = snd (get_action_attributes ac a cat)" for a
    by (rule resolution_stable)
  show ?case
    by (simp add: get_input_for_action_eq Cons.IH [of ?ac'] same)
qed

text \<open>
  C3: \<open>input_to_action\<close> scans the registered actions in registration order and returns
  the first one whose resolved bindings in the session's context (the events that
  \<open>get_action_attributes\<close> returns for it) contain an event equal to the probe, and
  \<open>CATA_ERROR\<close> when there is none. In particular, with the actions registered in the
  order FOO, BAR and both bound to the probe, it returns FOO.
\<close>

theorem C3_input_to_action:
  "snd (input_to_action ac ctxt e) =
     (case find (\<lambda>a. list_ex (\<lambda>b. input_event_eq b e)
                        (input_events (fst (snd (get_action_attributes ac a (category ctxt))))))
             (registered_actions ctxt) of
        None \<Rightarrow> CATA_ERROR
      | Some a \<Rightarrow> a)
   \<and> (registered_actions ctxt = [''FOO'', ''BAR'']
        \<and> list_ex (\<lambda>b. input_event_eq b e)
             (input_events (fst (snd (get_action_attributes ac ''FOO'' (category ctxt)))))
        \<and> list_ex (\<lambda>b. input_event_eq b e)
             (input_events (fst (snd (get_action_attributes ac ''BAR'' (category ctxt)))))
      \<longrightarrow> snd (input_to_action ac ctxt e) = ''FOO'')"
proof -
  have first: "snd (input_to_action ac ctxt e) =
     (case find (\<lambda>a. list_ex (\<lambda>b. input_event_eq b e)
                        (input_events (fst (snd (get_action_attributes ac a (category ctxt))))))
             (registered_actions ctxt) of
        None \<Rightarrow> CATA_ERROR
      | Some a \<Rightarrow> a)"
    by (simp only: input_to_action_def input_to_action_loop_find)
  show ?thesis
    by (rule conjI, rule first) (auto simp add: first)
qed

theorem C3_input_to_action_witness:
  "registered_actions
     \<lparr>registered_actions = [''FOO'', ''BAR''], category = ''vehicle'',
      registered_any_input = False, handling_coordinate_input = False,
      next_action = \<lparr>etype = error, modifiers = {}, sequence = [], mouse_pos = (0, 0)\<rparr>,
      coordinate_input_received = False, coordinate = (0, 0),
      action_name_overrides = Map.empty, preferred_keyboard_mode = keychar\<rparr>
     = [''FOO'', ''BAR'']
   \<and> snd (input_to_action
       [''default'' \<mapsto>
          [''FOO'' \<mapsto> \<lparr>name = ''Foo'',
              input_events = [\<lparr>etype = keyboard_char, modifiers = {}, sequence = [102],
                                mouse_pos = (0, 0)\<rparr>],
              is_user_created = False\<rparr>,
           ''BAR'' \<mapsto> \<lparr>name = ''Bar'',
              input_events = [\<lparr>etype = keyboard_char, modifiers = {ctrl}, sequence = [102],
                                mouse_pos = (0, 0)\<rparr>,
                              \<lparr>etype = keyboard_char, modifiers = {}, sequence = [102],
                                mouse_pos = (0, 0)\<rparr>],
              is_user_created = False\<rparr>]]
       \<lparr>registered_actions = [''FOO'', ''BAR''], category = ''vehicle'',
        registered_any_input = False, handling_coordinate_input = False,
        next_action = \<lparr>etype = error, modifiers = {}, sequence = [], mouse_pos = (0, 0)\<rparr>,
        coordinate_input_received = False, coordinate = (0, 0),
        action_name_overrides = Map.empty, preferred_keyboard_mode = keychar\<rparr>
       \<lparr>etype = keyboard_char, modifiers = {}, sequence = [102], mouse_pos = (5, 7)\<rparr>)
     = ''FOO''"
  using C3_input_to_action
    [where ac = "[''default'' \<mapsto>
          [''FOO'' \<mapsto> \<lparr>name = ''Foo'',
              input_events = [\<lparr>etype = keyboard_char, modifiers = {}, sequence = [102],
                                mouse_pos = (0, 0)\<rparr>],
              is_user_created = False\<rparr>,
           ''BAR'' \<mapsto> \<lparr>name = ''Bar'',
              input_events = [\<lparr>etype = keyboard_char, modifiers = {ctrl}, sequence = [102],
                                mouse_pos = (0, 0)\<rparr>,
                              \<lparr>etype = keyboard_char, modifiers = {}, sequence = [102],
                                mouse_pos = (0, 0)\<rparr>],
              is_user_created = False\<rparr>]]"
       and ctxt = "\<lparr>registered_actions = [''FOO'', ''BAR''], category = ''vehicle'',
        registered_any_input = False, handling_coordinate_input = False,
        next_action = \<lparr>etype = error, modifiers = {}, sequence = [], mouse_pos = (0, 0)\<rparr>,
        coordinate_input_received = False, coordinate = (0, 0),
        action_name_overrides = Map.empty, preferred_keyboard_mode = keychar\<rparr>"
       and e = "\<lparr>etype = keyboard_char, modifiers = {}, sequence = [102], mouse_pos = (5, 7)\<rparr>"]
  by (simp add: get_action_attributes_result find_action_def default_context_id_def
      input_event_eq_def)

lemma same_resolution_refl: "same_resolution ac ac"
  by (simp add: same_resolution_def)

lemma same_resolution_trans:
  "same_resolution a b \<Longrightarrow> same_resolution b c \<Longrightarrow> same_resolution a c"
  by (simp add: same_resolution_def)

lemma same_resolution_get_action_attributes:
  "same_resolution ac ac' \<Longrightarrow> same_resolution ac (fst (get_action_attributes ac' b d))"
  by (simp add: same_resolution_def resolution_stable)

lemma action_uses_input_eq:
  "action_uses_input ac ctxt a e
     = (fst (get_action_attributes ac a (category ctxt)),
        list_ex (\<lambda>b. input_event_eq b e)
          (input_events (fst (snd (get_action_attributes ac a (category ctxt))))))"
  by (simp add: action_uses_input_def split: prod.splits)

lemma action_uses_input_cong:
  "same_resolution ac ac' \<Longrightarrow>
     snd (action_uses_input ac' ctxt a e) = snd (action_uses_input ac ctxt a e)"
  by (simp add: action_uses_input_eq same_resolution_def)

lemma same_resolution_action_uses_input:
  "same_resolution ac ac' \<Longrightarrow> same_resolution ac (fst (action_uses_input ac' ctxt a e))"
  by (simp add: action_uses_input_eq same_resolution_get_action_attributes)

lemma get_action_name_eq:
  "get_action_name nr ac ctxt a =
     (case action_name_overrides ctxt a of
        Some n \<Rightarrow> (ac, translated nr n)
      | None \<Rightarrow>
          (let ac1 = fst (get_action_attributes ac a (category ctxt));
               attributes = fst (snd (get_action_attributes ac a (category ctxt)))
           in if name attributes \<noteq> [] then (ac1, translated nr (name attributes))
              else
                (let ac2 = fst (get_action_attributes ac1 a default_context_id);
                     default_attributes = fst (snd (get_action_attributes ac1 a default_context_id))
                 in if name default_attributes \<noteq> []
                    then (ac2, translated nr (name default_attributes))
                    else (ac2, a))))"
  by (simp add: get_action_name_def Let_def case_prod_beta split: option.splits)

lemma same_resolution_get_action_name:
  "same_resolution ac ac' \<Longrightarrow> same_resolution ac (fst (get_action_name nr ac' ctxt a))"
  by (simp add: get_action_name_eq Let_def same_resolution_get_action_attributes
      split: option.splits)

lemma get_action_name_cong:
  assumes "same_resolution ac ac'"
  shows "snd (get_action_name nr ac' ctxt a) = snd (get_action_name nr ac ctxt a)"
proof -
  have r: "snd (get_action_attributes ac' x c) = snd (get_action_attributes ac x c)" for x c
    using assms by (simp add: same_resolution_def)
  show ?thesis
    by (simp add: get_action_name_eq Let_def r resolution_stable split: option.splits)
qed

lemma conflict_strings_eq:
  "same_resolution ac ac0 \<Longrightarrow>
     snd (conflict_strings nr ctxt e ac0 regs)
       = map (\<lambda>a. if snd (action_uses_input ac ctxt a e)
                  then snd (get_action_name nr ac ctxt a) else []) regs"
proof (induction regs arbitrary: ac0)
  case Nil
  show ?case by simp
next
  case (Cons action rest)
  let ?ac1 = "fst (action_uses_input ac0 ctxt action e)"
  let ?uses = "snd (action_uses_input ac0 ctxt action e)"
  let ?ac2 = "if ?uses then fst (get_action_name nr ?ac1 ctxt action) else ?ac1"
  let ?str = "if ?uses then snd (get_action_name nr ?ac1 ctxt action) else []"
  have sr1: "same_resolution ac ?ac1"
    using Cons.prems by (rule same_resolution_action_uses_input)
  have sr2: "same_resolution ac ?ac2"
    using sr1 by (simp add: same_resolution_get_action_name)
  have uses: "?uses = snd (action_uses_input ac ctxt action e)"
    using Cons.prems by (rule action_uses_input_cong)
  have str: "?str = (if snd (action_uses_input ac ctxt action e)
                     then snd (get_action_name nr ac ctxt action) else [])"
    using uses get_action_name_cong [OF sr1] by simp
  have step: "conflict_strings nr ctxt e ac0 (action # rest)
                = (fst (conflict_strings nr ctxt e ?ac2 rest),
                   ?str # snd (conflict_strings nr ctxt e ?ac2 rest))"
    by (simp split: prod.splits)
  show ?case
    unfolding step using Cons.IH [OF sr2] str by simp
qed

lemma filter_conflict_strings:
  "filter (\<lambda>str. str \<noteq> []) (map (\<lambda>a. if P a then f a else []) xs)
     = filter (\<lambda>str. str \<noteq> []) (map f (filter P xs))"
  by (induction xs) simp_all

lemma get_conflicts_eq:
  "snd (get_conflicts nr ac ctxt e)
     = enumeration_of nr
         (filter (\<lambda>str. str \<noteq> [])
            (map (\<lambda>a. snd (get_action_name nr ac ctxt a))
               (filter (\<lambda>a. snd (action_uses_input ac ctxt a e)) (registered_actions ctxt))))"
  using conflict_strings_eq [OF same_resolution_refl, of nr ctxt e ac "registered_actions ctxt"]
  by (simp add: get_conflicts_def filter_conflict_strings case_prod_beta)

text \<open>
  C8: the editor asks for the conflicts of an event only when the action being edited
  is not itself bound to the event (\<open>display_menu\<close> returns to its list when
  \<open>action_uses_input( action_id, new_event )\<close> holds, and calls \<open>get_conflicts\<close>
  nowhere else). The query then returns the enumeration of the display names of
  exactly those registered actions, other than the edited one, whose resolved bindings
  in the session's context contain an event equal to the given one, in registration
  order. \<open>get_conflicts\<close> erases the empty strings from the list before it enumerates
  it; no name is missing from the enumeration when none of these actions has an empty
  display name. The last part is what \<open>get_conflicts\<close> returns for any event.
\<close>

theorem C8_get_conflicts:
  "(\<not> snd (action_uses_input ac ctxt edited e) \<longrightarrow>
        snd (get_conflicts nr ac ctxt e)
          = enumeration_of nr
              (filter (\<lambda>str. str \<noteq> [])
                 (map (\<lambda>a. snd (get_action_name nr ac ctxt a))
                    (filter (\<lambda>a. a \<noteq> edited \<and> snd (action_uses_input ac ctxt a e))
                       (registered_actions ctxt)))))
   \<and> (\<not> snd (action_uses_input ac ctxt edited e)
        \<and> (\<forall>a \<in> set (registered_actions ctxt).
              a \<noteq> edited \<and> snd (action_uses_input ac ctxt a e)
              \<longrightarrow> snd (get_action_name nr ac ctxt a) \<noteq> []) \<longrightarrow>
        snd (get_conflicts nr ac ctxt e)
          = enumeration_of nr
              (map (\<lambda>a. snd (get_action_name nr ac ctxt a))
                 (filter (\<lambda>a. a \<noteq> edited \<and> snd (action_uses_input ac ctxt a e))
                    (registered_actions ctxt))))
   \<and> snd (get_conflicts nr ac ctxt e)
       = enumeration_of nr
           (filter (\<lambda>str. str \<noteq> [])
              (map (\<lambda>a. snd (get_action_name nr ac ctxt a))
                 (filter (\<lambda>a. snd (action_uses_input ac ctxt a e)) (registered_actions ctxt))))"
proof (intro conjI impI)
  have same: "filter (\<lambda>a. a \<noteq> edited \<and> snd (action_uses_input ac ctxt a e)) xs
          = filter (\<lambda>a. snd (action_uses_input ac ctxt a e)) xs"
    if "\<not> snd (action_uses_input ac ctxt edited e)" for xs
    using that by (intro filter_cong) auto
  show general: "snd (get_conflicts nr ac ctxt e)
       = enumeration_of nr
           (filter (\<lambda>str. str \<noteq> [])
              (map (\<lambda>a. snd (get_action_name nr ac ctxt a))
                 (filter (\<lambda>a. snd (action_uses_input ac ctxt a e)) (registered_actions ctxt))))"
    by (rule get_conflicts_eq)
  show guarded: "snd (get_conflicts nr ac ctxt e)
          = enumeration_of nr
              (filter (\<lambda>str. str \<noteq> [])
                 (map (\<lambda>a. snd (get_action_name nr ac ctxt a))
                    (filter (\<lambda>a. a \<noteq> edited \<and> snd (action_uses_input ac ctxt a e))
                       (registered_actions ctxt))))"
    if "\<not> snd (action_uses_input ac ctxt edited e)"
    unfolding general same [OF that] ..
  assume h: "\<not> snd (action_uses_input ac ctxt edited e)
        \<and> (\<forall>a \<in> set (registered_actions ctxt).
              a \<noteq> edited \<and> snd (action_uses_input ac ctxt a e)
              \<longrightarrow> snd (get_action_name nr ac ctxt a) \<noteq> [])"
  then have g: "\<not> snd (action_uses_input ac ctxt edited e)"
    by (rule conjunct1)
  from h have "\<forall>a \<in> set (registered_actions ctxt).
              a \<noteq> edited \<and> snd (action_uses_input ac ctxt a e)
              \<longrightarrow> snd (get_action_name nr ac ctxt a) \<noteq> []"
    by (rule conjunct2)
  then have "filter (\<lambda>str. str \<noteq> [])
                 (map (\<lambda>a. snd (get_action_name nr ac ctxt a))
                    (filter (\<lambda>a. a \<noteq> edited \<and> snd (action_uses_input ac ctxt a e))
                       (registered_actions ctxt)))
             = map (\<lambda>a. snd (get_action_name nr ac ctxt a))
                    (filter (\<lambda>a. a \<noteq> edited \<and> snd (action_uses_input ac ctxt a e))
                       (registered_actions ctxt))"
    by (intro filter_True) auto
  with guarded [OF g]
  show "snd (get_conflicts nr ac ctxt e)
          = enumeration_of nr
              (map (\<lambda>a. snd (get_action_name nr ac ctxt a))
                 (filter (\<lambda>a. a \<noteq> edited \<and> snd (action_uses_input ac ctxt a e))
                    (registered_actions ctxt)))"
    by simp
qed

lemma example_uses:
  "snd (action_uses_input
     [''default'' \<mapsto>
        [''FOO'' \<mapsto> \<lparr>name = ''Foo'',
            input_events = [\<lparr>etype = keyboard_char, modifiers = {}, sequence = [102],
                              mouse_pos = (0, 0)\<rparr>],
            is_user_created = False\<rparr>,
         ''BAR'' \<mapsto> \<lparr>name = ''Bar'',
            input_events = [\<lparr>etype = keyboard_char, modifiers = {}, sequence = [102],
                              mouse_pos = (0, 0)\<rparr>],
            is_user_created = False\<rparr>,
         ''QUIT'' \<mapsto> \<lparr>name = ''Quit'',
            input_events = [\<lparr>etype = keyboard_char, modifiers = {}, sequence = [113],
                              mouse_pos = (0, 0)\<rparr>],
            is_user_created = False\<rparr>]]
     \<lparr>registered_actions = [''FOO'', ''BAR'', ''QUIT''], category = ''vehicle'',
      registered_any_input = False, handling_coordinate_input = False,
      next_action = \<lparr>etype = error, modifiers = {}, sequence = [], mouse_pos = (0, 0)\<rparr>,
      coordinate_input_received = False, coordinate = (0, 0),
      action_name_overrides = Map.empty, preferred_keyboard_mode = keychar\<rparr>
     a
     \<lparr>etype = keyboard_char, modifiers = {}, sequence = [102], mouse_pos = (0, 0)\<rparr>)
   = (a = ''FOO'' \<or> a = ''BAR'')"
  by (simp add: action_uses_input_eq get_action_attributes_result find_action_def
      default_context_id_def input_event_eq_def new_action_attributes_def)

lemma example_names:
  "a = ''FOO'' \<or> a = ''BAR'' \<or> a = ''QUIT'' \<Longrightarrow>
   snd (get_action_name plain_resources
     [''default'' \<mapsto>
        [''FOO'' \<mapsto> \<lparr>name = ''Foo'',
            input_events = [\<lparr>etype = keyboard_char, modifiers = {}, sequence = [102],
                              mouse_pos = (0, 0)\<rparr>],
            is_user_created = False\<rparr>,
         ''BAR'' \<mapsto> \<lparr>name = ''Bar'',
            input_events = [\<lparr>etype = keyboard_char, modifiers = {}, sequence = [102],
                              mouse_pos = (0, 0)\<rparr>],
            is_user_created = False\<rparr>,
         ''QUIT'' \<mapsto> \<lparr>name = ''Quit'',
            input_events = [\<lparr>etype = keyboard_char, modifiers = {}, sequence = [113],
                              mouse_pos = (0, 0)\<rparr>],
            is_user_created = False\<rparr>]]
     \<lparr>registered_actions = [''FOO'', ''BAR'', ''QUIT''], category = ''vehicle'',
      registered_any_input = False, handling_coordinate_input = False,
      next_action = \<lparr>etype = error, modifiers = {}, sequence = [], mouse_pos = (0, 0)\<rparr>,
      coordinate_input_received = False, coordinate = (0, 0),
      action_name_overrides = Map.empty, preferred_keyboard_mode = keychar\<rparr>
     a)
   = (if a = ''FOO'' then ''Foo'' else if a = ''BAR'' then ''Bar'' else ''Quit'')"
  by (auto simp add: get_action_name_eq get_action_attributes_result find_action_def
      default_context_id_def plain_resources_def)

theorem C8_get_conflicts_witness:
  "\<not> snd (action_uses_input
     [''default'' \<mapsto>
        [''FOO'' \<mapsto> \<lparr>name = ''Foo'',
            input_events = [\<lparr>etype = keyboard_char, modifiers = {}, sequence = [102],
                              mouse_pos = (0, 0)\<rparr>],
            is_user_created = False\<rparr>,
         ''BAR'' \<mapsto> \<lparr>name = ''Bar'',
            input_events = [\<lparr>etype = keyboard_char, modifiers = {}, sequence = [102],
                              mouse_pos = (0, 0)\<rparr>],
            is_user_created = False\<rparr>,
         ''QUIT'' \<mapsto> \<lparr>name = ''Quit'',
            input_events = [\<lparr>etype = keyboard_char, modifiers = {}, sequence = [113],
                              mouse_pos = (0, 0)\<rparr>],
            is_user_created = False\<rparr>]]
     \<lparr>registered_actions = [''FOO'', ''BAR'', ''QUIT''], category = ''vehicle'',
      registered_any_input = False, handling_coordinate_input = False,
      next_action = \<lparr>etype = error, modifiers = {}, sequence = [], mouse_pos = (0, 0)\<rparr>,
      coordinate_input_received = False, coordinate = (0, 0),
      action_name_overrides = Map.empty, preferred_keyboard_mode = keychar\<rparr>
     ''QUIT''
     \<lparr>etype = keyboard_char, modifiers = {}, sequence = [102], mouse_pos = (0, 0)\<rparr>)
   \<and> snd (get_action_name plain_resources
     [''default'' \<mapsto>
        [''FOO'' \<mapsto> \<lparr>name = ''Foo'',
            input_events = [\<lparr>etype = keyboard_char, modifiers = {}, sequence = [102],
                              mouse_pos = (0, 0)\<rparr>],
            is_user_created = False\<rparr>,
         ''BAR'' \<mapsto> \<lparr>name = ''Bar'',
            input_events = [\<lparr>etype = keyboard_char, modifiers = {}, sequence = [102],
                              mouse_pos = (0, 0)\<rparr>],
            is_user_created = False\<rparr>,
         ''QUIT'' \<mapsto> \<lparr>name = ''Quit'',
            input_events = [\<lparr>etype = keyboard_char, modifiers = {}, sequence = [113],
                              mouse_pos = (0, 0)\<rparr>],
            is_user_created = False\<rparr>]]
     \<lparr>registered_actions = [''FOO'', ''BAR'', ''QUIT''], category = ''vehicle'',
      registered_any_input = False, handling_coordinate_input = False,
      next_action = \<lparr>etype = error, modifiers = {}, sequence = [], mouse_pos = (0, 0)\<rparr>,
      coordinate_input_received = False, coordinate = (0, 0),
      action_name_overrides = Map.empty, preferred_keyboard_mode = keychar\<rparr>
     ''FOO'') = ''Foo''
   \<and> snd (get_action_name plain_resources
     [''default'' \<mapsto>
        [''FOO'' \<mapsto> \<lparr>name = ''Foo'',
            input_events = [\<lparr>etype = keyboard_char, modifiers = {}, sequence = [102],
                              mouse_pos = (0, 0)\<rparr>],
            is_user_created = False\<rparr>,
         ''BAR'' \<mapsto> \<lparr>name = ''Bar'',
            input_events = [\<lparr>etype = keyboard_char, modifiers = {}, sequence = [102],
                              mouse_pos = (0, 0)\<rparr>],
            is_user_created = False\<rparr>,
         ''QUIT'' \<mapsto> \<lparr>name = ''Quit'',
            input_events = [\<lparr>etype = keyboard_char, modifiers = {}, sequence = [113],
                              mouse_pos = (0, 0)\<rparr>],
            is_user_created = False\<rparr>]]
     \<lparr>registered_actions = [''FOO'', ''BAR'', ''QUIT''], category = ''vehicle'',
      registered_any_input = False, handling_coordinate_input = False,
      next_action = \<lparr>etype = error, modifiers = {}, sequence = [], mouse_pos = (0, 0)\<rparr>,
      coordinate_input_received = False, coordinate = (0, 0),
      action_name_overrides = Map.empty, preferred_keyboard_mode = keychar\<rparr>
     ''BAR'') = ''Bar''
   \<and> snd (get_conflicts plain_resources
     [''default'' \<mapsto>
        [''FOO'' \<mapsto> \<lparr>name = ''Foo'',
            input_events = [\<lparr>etype = keyboard_char, modifiers = {}, sequence = [102],
                              mouse_pos = (0, 0)\<rparr>],
            is_user_created = False\<rparr>,
         ''BAR'' \<mapsto> \<lparr>name = ''Bar'',
            input_events = [\<lparr>etype = keyboard_char, modifiers = {}, sequence = [102],
                              mouse_pos = (0, 0)\<rparr>],
            is_user_created = False\<rparr>,
         ''QUIT'' \<mapsto> \<lparr>name = ''Quit'',
            input_events = [\<lparr>etype = keyboard_char, modifiers = {}, sequence = [113],
                              mouse_pos = (0, 0)\<rparr>],
            is_user_created = False\<rparr>]]
     \<lparr>registered_actions = [''FOO'', ''BAR'', ''QUIT''], category = ''vehicle'',
      registered_any_input = False, handling_coordinate_input = False,
      next_action = \<lparr>etype = error, modifiers = {}, sequence = [], mouse_pos = (0, 0)\<rparr>,
      coordinate_input_received = False, coordinate = (0, 0),
      action_name_overrides = Map.empty, preferred_keyboard_mode = keychar\<rparr>
     \<lparr>etype = keyboard_char, modifiers = {}, sequence = [102], mouse_pos = (0, 0)\<rparr>)
   = enumeration_of plain_resources [''Foo'', ''Bar'']
   \<and> enumeration_of plain_resources [''Foo'', ''Bar''] = ''Foo;Bar;''"
  using C8_get_conflicts [where nr = plain_resources and edited = "''QUIT''" and ac =
     "[''default'' \<mapsto>
        [''FOO'' \<mapsto> \<lparr>name = ''Foo'',
            input_events = [\<lparr>etype = keyboard_char, modifiers = {}, sequence = [102],
                              mouse_pos = (0, 0)\<rparr>],
            is_user_created = False\<rparr>,
         ''BAR'' \<mapsto> \<lparr>name = ''Bar'',
            input_events = [\<lparr>etype = keyboard_char, modifiers = {}, sequence = [102],
                              mouse_pos = (0, 0)\<rparr>],
            is_user_created = False\<rparr>,
         ''QUIT'' \<mapsto> \<lparr>name = ''Quit'',
            input_events = [\<lparr>etype = keyboard_char, modifiers = {}, sequence = [113],
                              mouse_pos = (0, 0)\<rparr>],
            is_user_created = False\<rparr>]]"
     and ctxt = "\<lparr>registered_actions = [''FOO'', ''BAR'', ''QUIT''], category = ''vehicle'',
      registered_any_input = False, handling_coordinate_input = False,
      next_action = \<lparr>etype = error, modifiers = {}, sequence = [], mouse_pos = (0, 0)\<rparr>,
      coordinate_input_received = False, coordinate = (0, 0),
      action_name_overrides = Map.empty, preferred_keyboard_mode = keychar\<rparr>"
     and e = "\<lparr>etype = keyboard_char, modifiers = {}, sequence = [102], mouse_pos = (0, 0)\<rparr>"]
  by (simp add: example_uses example_names) (simp add: plain_resources_def)

section \<open>Properties of the read-and-resolve loop\<close>

lemma handle_input_loop_waits:
  "handle_input_loop menu t m ctxt waits pending = Some r \<Longrightarrow>
     hi_waits r \<noteq> [] \<and> set (hi_waits r) \<subseteq> set waits \<union> {get_timeout m}"
proof (induction pending arbitrary: m ctxt waits)
  case Nil
  then show ?case by simp
next
  case (Cons ev pending)
  obtain ac1 action where ia:
    "input_to_action (action_contexts m) (ctxt\<lparr>next_action := ev\<rparr>) ev = (ac1, action)"
    by (cases "input_to_action (action_contexts m) (ctxt\<lparr>next_action := ev\<rparr>) ev") auto
  have t1: "get_timeout (m\<lparr>action_contexts := ac1\<rparr>) = get_timeout m"
    by (simp add: get_timeout_def)
  have rec: "hi_waits r \<noteq> [] \<and> set (hi_waits r) \<subseteq> set waits \<union> {get_timeout m}"
    if "handle_input_loop menu t (m\<lparr>action_contexts := ac1\<rparr>) ctxt'
          (waits @ [get_timeout m]) pending = Some r" for ctxt'
    using Cons.IH [OF that] t1 by auto
  show ?case
    using Cons.prems ia rec
    by (auto simp add: Let_def split: if_splits option.splits prod.splits)
qed

text \<open>
  C9: whenever \<open>handle_input\<close> returns, on whichever path (the timeout event, a
  registered action, \<open>ANY_INPUT\<close>, or \<open>HELP_KEYBINDINGS\<close> after the keybindings editor
  has run), the manager's timeout is the one it had before the call, whatever the
  timeout argument and whatever the editor did to the manager. With a negative
  timeout argument, the manager's timeout in force at each wait for an event of this
  call is that same value.
\<close>

theorem C9_handle_input_restores_timeout:
  "handle_input menu timeout_arg m ctxt pending = Some r \<Longrightarrow>
     get_timeout (hi_manager r) = get_timeout m
     \<and> (timeout_arg < 0 \<longrightarrow> hi_waits r \<noteq> [] \<and> (\<forall>w \<in> set (hi_waits r). w = get_timeout m))"
proof -
  assume h: "handle_input menu timeout_arg m ctxt pending = Some r"
  let ?m0 = "if timeout_arg \<ge> 0 then set_timeout timeout_arg m else m"
  let ?ctxt0 = "ctxt\<lparr>next_action := (next_action ctxt)\<lparr>etype := error\<rparr>\<rparr>"
  from h obtain r0 where
    loop: "handle_input_loop menu timeout_arg ?m0 ?ctxt0 [] pending = Some r0" and
    r: "r = r0\<lparr>hi_manager := set_timeout (get_timeout m) (hi_manager r0)\<rparr>"
    by (auto simp add: handle_input_def Let_def split: option.splits)
  have restored: "get_timeout (hi_manager r) = get_timeout m"
    by (simp add: r get_timeout_def set_timeout_def)
  have "hi_waits r \<noteq> [] \<and> (\<forall>w \<in> set (hi_waits r). w = get_timeout m)" if "timeout_arg < 0"
    using handle_input_loop_waits [OF loop] that by (auto simp add: r)
  with restored show ?thesis by simp
qed


lemma example_handle_input_run:
  "map_option (\<lambda>r. (hi_action r, get_timeout (hi_manager r), hi_waits r, hi_pending r))
     (handle_input (\<lambda>m ctxt pending. Some (set_timeout 7 m, drop 1 pending)) (- 1)
        (empty_manager
           \<lparr>action_contexts :=
              [''default'' \<mapsto>
                 [''HELP_KEYBINDINGS'' \<mapsto> \<lparr>name = ''Help'',
                     input_events = [\<lparr>etype = keyboard_char, modifiers = {}, sequence = [63],
                                       mouse_pos = (0, 0)\<rparr>],
                     is_user_created = False\<rparr>]],
            input_timeout := 50\<rparr>)
        \<lparr>registered_actions = [''QUIT'', ''HELP_KEYBINDINGS''], category = ''vehicle'',
         registered_any_input = False, handling_coordinate_input = False,
         next_action = \<lparr>etype = error, modifiers = {}, sequence = [], mouse_pos = (0, 0)\<rparr>,
         coordinate_input_received = False, coordinate = (0, 0),
         action_name_overrides = Map.empty, preferred_keyboard_mode = keychar\<rparr>
        [\<lparr>etype = mouse, modifiers = {}, sequence = [1], mouse_pos = (3, 4)\<rparr>,
         \<lparr>etype = keyboard_char, modifiers = {}, sequence = [120], mouse_pos = (0, 0)\<rparr>,
         \<lparr>etype = keyboard_char, modifiers = {}, sequence = [63], mouse_pos = (0, 0)\<rparr>,
         \<lparr>etype = keyboard_char, modifiers = {}, sequence = [113], mouse_pos = (0, 0)\<rparr>,
         \<lparr>etype = keyboard_char, modifiers = {}, sequence = [65], mouse_pos = (0, 0)\<rparr>])
   = Some (''HELP_KEYBINDINGS'', 50, [50, 50, 50],
           [\<lparr>etype = keyboard_char, modifiers = {}, sequence = [65], mouse_pos = (0, 0)\<rparr>])"
  by (simp add: handle_input_def input_to_action_def get_input_for_action_def
      get_action_attributes_def get_default_action_name_def find_action_def context_at_def
      default_context_id_def new_action_attributes_def no_translation_def input_event_eq_def
      empty_manager_def get_timeout_def set_timeout_def reset_timeout_def
      CATA_ERROR_def HELP_KEYBINDINGS_def Let_def)

theorem C9_handle_input_restores_timeout_witness:
  "map_option (\<lambda>r. (hi_action r, get_timeout (hi_manager r), hi_waits r, hi_pending r))
     (handle_input (\<lambda>m ctxt pending. Some (set_timeout 7 m, drop 1 pending)) (- 1)
        (empty_manager
           \<lparr>action_contexts :=
              [''default'' \<mapsto>
                 [''HELP_KEYBINDINGS'' \<mapsto> \<lparr>name = ''Help'',
                     input_events = [\<lparr>etype = keyboard_char, modifiers = {}, sequence = [63],
                                       mouse_pos = (0, 0)\<rparr>],
                     is_user_created = False\<rparr>]],
            input_timeout := 50\<rparr>)
        \<lparr>registered_actions = [''QUIT'', ''HELP_KEYBINDINGS''], category = ''vehicle'',
         registered_any_input = False, handling_coordinate_input = False,
         next_action = \<lparr>etype = error, modifiers = {}, sequence = [], mouse_pos = (0, 0)\<rparr>,
         coordinate_input_received = False, coordinate = (0, 0),
         action_name_overrides = Map.empty, preferred_keyboard_mode = keychar\<rparr>
        [\<lparr>etype = mouse, modifiers = {}, sequence = [1], mouse_pos = (3, 4)\<rparr>,
         \<lparr>etype = keyboard_char, modifiers = {}, sequence = [120], mouse_pos = (0, 0)\<rparr>,
         \<lparr>etype = keyboard_char, modifiers = {}, sequence = [63], mouse_pos = (0, 0)\<rparr>,
         \<lparr>etype = keyboard_char, modifiers = {}, sequence = [113], mouse_pos = (0, 0)\<rparr>,
         \<lparr>etype = keyboard_char, modifiers = {}, sequence = [65], mouse_pos = (0, 0)\<rparr>])
   = Some (''HELP_KEYBINDINGS'', 50, [50, 50, 50],
           [\<lparr>etype = keyboard_char, modifiers = {}, sequence = [65], mouse_pos = (0, 0)\<rparr>])"
proof -
  obtain r where h: "handle_input (\<lambda>m ctxt pending. Some (set_timeout 7 m, drop 1 pending)) (- 1)
        (empty_manager
           \<lparr>action_contexts :=
              [''default'' \<mapsto>
                 [''HELP_KEYBINDINGS'' \<mapsto> \<lparr>name = ''Help'',
                     input_events = [\<lparr>etype = keyboard_char, modifiers = {}, sequence = [63],
                                       mouse_pos = (0, 0)\<rparr>],
                     is_user_created = False\<rparr>]],
            input_timeout := 50\<rparr>)
        \<lparr>registered_actions = [''QUIT'', ''HELP_KEYBINDINGS''], category = ''vehicle'',
         registered_any_input = False, handling_coordinate_input = False,
         next_action = \<lparr>etype = error, modifiers = {}, sequence = [], mouse_pos = (0, 0)\<rparr>,
         coordinate_input_received = False, coordinate = (0, 0),
         action_name_overrides = Map.empty, preferred_keyboard_mode = keychar\<rparr>
        [\<lparr>etype = mouse, modifiers = {}, sequence = [1], mouse_pos = (3, 4)\<rparr>,
         \<lparr>etype = keyboard_char, modifiers = {}, sequence = [120], mouse_pos = (0, 0)\<rparr>,
         \<lparr>etype = keyboard_char, modifiers = {}, sequence = [63], mouse_pos = (0, 0)\<rparr>,
         \<lparr>etype = keyboard_char, modifiers = {}, sequence = [113], mouse_pos = (0, 0)\<rparr>,
         \<lparr>etype = keyboard_char, modifiers = {}, sequence = [65], mouse_pos = (0, 0)\<rparr>] = Some r"
    using example_handle_input_run by blast
  show ?thesis
    using C9_handle_input_restores_timeout [OF h] example_handle_input_run by simp
qed

section \<open>Properties of loading\<close>

text \<open>The table after a record of type keybinding whose bindings could be read.\<close>

lemma load_action_keybinding:
  assumes "(case ja_type r of None \<Rightarrow> ''keybinding'' | Some t \<Rightarrow> t) = ''keybinding''"
    and "read_bindings unwritten m (ja_bindings r) = Inr events"
    and "cat = (case ja_category r of None \<Rightarrow> default_context_id | Some c \<Rightarrow> c)"
    and "actions = (case ja_name r of
                      Some n \<Rightarrow>
                        if \<not> u
                        then (context_at (action_contexts m) cat)(ja_id r \<mapsto>
                               (case context_at (action_contexts m) cat (ja_id r) of
                                  None \<Rightarrow> new_action_attributes
                                | Some a \<Rightarrow> a)\<lparr>name := n\<rparr>)
                        else context_at (action_contexts m) cat
                    | None \<Rightarrow> context_at (action_contexts m) cat)"
    and "old = (case actions (ja_id r) of None \<Rightarrow> new_action_attributes | Some a \<Rightarrow> a)"
  shows "load_action unwritten u r m =
     Inr (m\<lparr>action_contexts := (action_contexts m)(cat \<mapsto>
            (if \<not> u \<or> events \<noteq> [] \<or> cat = default_context_id
                \<or> actions (ja_id r) \<noteq> None
             then actions(ja_id r \<mapsto>
                    old\<lparr>input_events :=
                          (if u \<and> (ja_version r = None \<or> ja_version r = Some 0)
                           then events @ filter (\<lambda>evt. etype evt = keyboard_code)
                                           (input_events old)
                           else events),
                        is_user_created :=
                          (case ja_is_user_created r of
                             None \<Rightarrow> is_user_created old
                           | Some b \<Rightarrow> b)\<rparr>)
             else actions))\<rparr>)"
  using assms(1,2) unfolding assms(3,4,5)
  by (simp add: load_action_def Let_def split: option.splits)

text \<open>
  C4, as the code has it: take a record of type keybinding whose bindings are read
  without error into \<open>events\<close>. When the record comes from the user preferences,
  \<open>events\<close> is empty, the record's context is not "default" and that context has no
  entry for the action id, the record is discarded: no entry of any context is created
  or changed. The table is still touched: the record's context has been looked up
  with \<open>action_contexts[context]\<close>, so it now exists (empty, when it did not exist
  before). In every other case (a record of a shipped file, a non-empty event list,
  the "default" context, or an entry already there) the record is applied: the entry
  of the action id in the record's context has the events read (followed, for a user
  record of version 0, by the raw-keyboard-code events the entry had) and the
  user-created flag of the record, when the record has one.
\<close>

theorem C4_empty_binding_suppression:
  assumes "(case ja_type r of None \<Rightarrow> ''keybinding'' | Some t \<Rightarrow> t) = ''keybinding''"
    and "read_bindings unwritten m (ja_bindings r) = Inr events"
    and "cat = (case ja_category r of None \<Rightarrow> default_context_id | Some c \<Rightarrow> c)"
  shows "case load_action unwritten is_user_preferences r m of
     Inl e \<Rightarrow> False
   | Inr m' \<Rightarrow>
       if is_user_preferences \<and> events = [] \<and> cat \<noteq> default_context_id
          \<and> find_action (action_contexts m) cat (ja_id r) = None
       then (\<forall>c a. find_action (action_contexts m') c a = find_action (action_contexts m) c a)
            \<and> action_contexts m'
                = (action_contexts m)(cat \<mapsto> context_at (action_contexts m) cat)
       else (case find_action (action_contexts m') cat (ja_id r) of
               None \<Rightarrow> False
             | Some entry \<Rightarrow>
                 (case ja_is_user_created r of
                    None \<Rightarrow> True
                  | Some b \<Rightarrow> is_user_created entry = b)
                 \<and> input_events entry
                     = events @
                       (if is_user_preferences
                           \<and> (ja_version r = None \<or> ja_version r = Some 0)
                        then filter (\<lambda>evt. etype evt = keyboard_code)
                               (case find_action (action_contexts m) cat (ja_id r) of
                                  None \<Rightarrow> []
                                | Some old \<Rightarrow> input_events old)
                        else []))"
proof -
  define actions where "actions = (case ja_name r of
                      Some n \<Rightarrow>
                        if \<not> is_user_preferences
                        then (context_at (action_contexts m) cat)(ja_id r \<mapsto>
                               (case context_at (action_contexts m) cat (ja_id r) of
                                  None \<Rightarrow> new_action_attributes
                                | Some a \<Rightarrow> a)\<lparr>name := n\<rparr>)
                        else context_at (action_contexts m) cat
                    | None \<Rightarrow> context_at (action_contexts m) cat)"
  define old where "old = (case actions (ja_id r) of None \<Rightarrow> new_action_attributes | Some a \<Rightarrow> a)"
  note result = load_action_keybinding [OF assms actions_def old_def]
  have user: "actions = context_at (action_contexts m) cat" if is_user_preferences
    using that by (simp add: actions_def split: option.splits)
  have old_events: "input_events old
      = (case find_action (action_contexts m) cat (ja_id r) of
           None \<Rightarrow> []
         | Some x \<Rightarrow> input_events x)"
    by (simp add: old_def actions_def context_at_find new_action_attributes_def
        split: option.splits)
  show ?thesis
  proof (cases "is_user_preferences \<and> events = [] \<and> cat \<noteq> default_context_id
            \<and> find_action (action_contexts m) cat (ja_id r) = None")
    case True
    with result user show ?thesis
      by (simp add: context_at_find find_action_upd_context)
  next
    case False
    then have applied: "\<not> is_user_preferences \<or> events \<noteq> [] \<or> cat = default_context_id
                \<or> actions (ja_id r) \<noteq> None"
      by (auto simp add: user context_at_find)
    show ?thesis
      using False applied result
      by (auto simp add: find_action_upd_context old_events split: option.splits)
  qed
qed

theorem C4_empty_binding_suppression_witness:
  "(case load_action 0 True
       \<lparr>ja_version = Some 1, ja_type = None, ja_id = ''FIRE'', ja_category = Some ''vehicle'',
        ja_name = None, ja_bindings = [], ja_is_user_created = None\<rparr>
       (empty_manager\<lparr>action_contexts :=
          [''vehicle'' \<mapsto> [''UP'' \<mapsto> \<lparr>name = ''Up'', input_events = [],
                                          is_user_created = False\<rparr>]]\<rparr>) of
      Inl e \<Rightarrow> False
    | Inr m' \<Rightarrow> find_action (action_contexts m') ''vehicle'' ''FIRE'' = None
        \<and> action_contexts m'
          = [''vehicle'' \<mapsto> [''UP'' \<mapsto> \<lparr>name = ''Up'', input_events = [],
                                          is_user_created = False\<rparr>]])"
proof -
  have a: "read_bindings 0 m [] = Inr []" for m
    by (simp add: read_bindings_def)
  show ?thesis
    using C4_empty_binding_suppression [where unwritten = 0 and is_user_preferences = True
        and events = "[]"
        and cat = "''vehicle''"
        and r = "\<lparr>ja_version = Some 1, ja_type = None, ja_id = ''FIRE'',
                  ja_category = Some ''vehicle'', ja_name = None, ja_bindings = [],
                  ja_is_user_created = None\<rparr>"
        and m = "empty_manager\<lparr>action_contexts :=
          [''vehicle'' \<mapsto> [''UP'' \<mapsto> \<lparr>name = ''Up'', input_events = [],
                                          is_user_created = False\<rparr>]]\<rparr>"]
    by (simp add: a find_action_def context_at_def default_context_id_def split: sum.splits)
qed


text \<open>
  The claim C4 as it is written has the table unchanged by a discarded record. A user
  record with no bindings for the action FIRE in the context "vehicle", loaded into a
  table without that context, is discarded, and the table has the context "vehicle"
  afterwards.
\<close>

theorem C4_context_created_counterexample:
  "case load_action 0 True
       \<lparr>ja_version = Some 1, ja_type = None, ja_id = ''FIRE'', ja_category = Some ''vehicle'',
        ja_name = None, ja_bindings = [], ja_is_user_created = None\<rparr>
       empty_manager of
     Inl e \<Rightarrow> False
   | Inr m' \<Rightarrow> action_contexts m' ''vehicle'' \<noteq> action_contexts empty_manager ''vehicle''"
  by (simp add: load_action_def read_bindings_def context_at_def default_context_id_def
      empty_manager_def Let_def)

text \<open>
  C5: when a user-preference record of schema version 0 (no \<open>version\<close> member, or
  version 0) is applied, the entry of its action id in its context gets the events of
  the record followed by every raw-keyboard-code event that the entry had before, in
  their order. A version-0 user record for QUIT with one keyboard-char event, loaded
  over a default entry for QUIT that has a keyboard-code event, yields both events.
\<close>

theorem C5_version_0_keeps_keyboard_code:
  assumes "(case ja_type r of None \<Rightarrow> ''keybinding'' | Some t \<Rightarrow> t) = ''keybinding''"
    and "read_bindings unwritten m (ja_bindings r) = Inr events"
    and "cat = (case ja_category r of None \<Rightarrow> default_context_id | Some c \<Rightarrow> c)"
    and "ja_version r = None \<or> ja_version r = Some 0"
    and "events \<noteq> [] \<or> cat = default_context_id
           \<or> find_action (action_contexts m) cat (ja_id r) \<noteq> None"
  shows "case load_action unwritten True r m of
     Inl e \<Rightarrow> False
   | Inr m' \<Rightarrow>
       (case find_action (action_contexts m') cat (ja_id r) of
          None \<Rightarrow> False
        | Some entry \<Rightarrow>
            input_events entry
              = events @ filter (\<lambda>evt. etype evt = keyboard_code)
                           (case find_action (action_contexts m) cat (ja_id r) of
                              None \<Rightarrow> []
                            | Some old \<Rightarrow> input_events old))"
proof -
  define old where "old = (case context_at (action_contexts m) cat (ja_id r) of
                             None \<Rightarrow> new_action_attributes
                           | Some a \<Rightarrow> a)"
  have actions: "context_at (action_contexts m) cat
      = (case ja_name r of
           Some n \<Rightarrow>
             if \<not> True
             then (context_at (action_contexts m) cat)(ja_id r \<mapsto>
                    (case context_at (action_contexts m) cat (ja_id r) of
                       None \<Rightarrow> new_action_attributes
                     | Some a \<Rightarrow> a)\<lparr>name := n\<rparr>)
             else context_at (action_contexts m) cat
         | None \<Rightarrow> context_at (action_contexts m) cat)"
    by (simp split: option.splits)
  note result = load_action_keybinding [OF assms(1,2,3) actions old_def]
  have old_events: "input_events old
      = (case find_action (action_contexts m) cat (ja_id r) of
           None \<Rightarrow> []
         | Some x \<Rightarrow> input_events x)"
    by (simp add: old_def context_at_find new_action_attributes_def split: option.splits)
  have applied: "events \<noteq> [] \<or> cat = default_context_id
                   \<or> context_at (action_contexts m) cat (ja_id r) \<noteq> None"
    using assms(5) by (simp add: context_at_find)
  show ?thesis
    using assms(4) applied
    by (simp add: result find_action_upd_context old_events)
qed



theorem C5_version_0_keeps_keyboard_code_witness:
  "case load_action 0 True
       \<lparr>ja_version = None, ja_type = None, ja_id = ''QUIT'', ja_category = None,
        ja_name = None,
        ja_bindings = [\<lparr>jb_input_method = ''keyboard'', jb_mod = None,
                         jb_key = key_string ''q''\<rparr>],
        ja_is_user_created = None\<rparr>
       ((add_keyboard_char_keycode_pair 113 ''q'' empty_manager)\<lparr>action_contexts :=
          [''default'' \<mapsto> [''QUIT'' \<mapsto> \<lparr>name = ''Quit'', input_events =
              [\<lparr>etype = keyboard_char, modifiers = {}, sequence = [81], mouse_pos = (0, 0)\<rparr>,
               \<lparr>etype = keyboard_code, modifiers = {}, sequence = [27], mouse_pos = (0, 0)\<rparr>],
               is_user_created = False\<rparr>]]\<rparr>) of
     Inl e \<Rightarrow> False
   | Inr m' \<Rightarrow>
      (case find_action (action_contexts m') ''default'' ''QUIT'' of
         None \<Rightarrow> False
       | Some entry \<Rightarrow>
           input_events entry
             = [\<lparr>etype = keyboard_char, modifiers = {}, sequence = [113], mouse_pos = (0, 0)\<rparr>,
                \<lparr>etype = keyboard_code, modifiers = {}, sequence = [27], mouse_pos = (0, 0)\<rparr>])"
proof -
  let ?r = "\<lparr>ja_version = None, ja_type = None, ja_id = ''QUIT'', ja_category = None,
        ja_name = None,
        ja_bindings = [\<lparr>jb_input_method = ''keyboard'', jb_mod = None,
                         jb_key = key_string ''q''\<rparr>],
        ja_is_user_created = None\<rparr>"
  let ?tbl = "[''default'' \<mapsto> [''QUIT'' \<mapsto> \<lparr>name = ''Quit'', input_events =
              [\<lparr>etype = keyboard_char, modifiers = {}, sequence = [81], mouse_pos = (0, 0)\<rparr>,
               \<lparr>etype = keyboard_code, modifiers = {}, sequence = [27], mouse_pos = (0, 0)\<rparr>],
               is_user_created = False\<rparr>]]"
  let ?m = "(add_keyboard_char_keycode_pair 113 ''q'' empty_manager)\<lparr>action_contexts := ?tbl\<rparr>"
  let ?events = "[\<lparr>etype = keyboard_char, modifiers = {}, sequence = [113],
                    mouse_pos = (0, 0)\<rparr>]"
  have a1: "(case ja_type ?r of None \<Rightarrow> ''keybinding'' | Some t \<Rightarrow> t) = ''keybinding''"
    by simp
  have a2: "read_bindings 0 ?m (ja_bindings ?r) = Inr ?events"
    by (simp add: read_bindings_def read_keybinding_def new_event_types_def
        get_keycode_def keyname_to_keycode_map_def add_keyboard_char_keycode_pair_def
        empty_manager_def)
  have a3: "''default'' = (case ja_category ?r of None \<Rightarrow> default_context_id | Some c \<Rightarrow> c)"
    by (simp add: default_context_id_def)
  have a4: "ja_version ?r = None \<or> ja_version ?r = Some 0"
    by simp
  have a5: "?events \<noteq> [] \<or> ''default'' = default_context_id
              \<or> find_action (action_contexts ?m) ''default'' (ja_id ?r) \<noteq> None"
    by simp
  have old: "find_action ?tbl ''default'' ''QUIT''
       = Some \<lparr>name = ''Quit'', input_events =
              [\<lparr>etype = keyboard_char, modifiers = {}, sequence = [81], mouse_pos = (0, 0)\<rparr>,
               \<lparr>etype = keyboard_code, modifiers = {}, sequence = [27], mouse_pos = (0, 0)\<rparr>],
               is_user_created = False\<rparr>"
    by (simp add: find_action_def)
  show ?thesis
    using C5_version_0_keeps_keyboard_code [OF a1 a2 a3 a4 a5]
    by (simp add: old cong: sum.case_cong option.case_cong)
qed

section \<open>Properties of the keycode registry\<close>

lemma below_ten: "d < 10 \<Longrightarrow> d \<in> {0, 1, 2, 3, 4, 5, 6, 7, 8, 9::nat}"
  by auto

lemma digit_val_digit_char: "d < 10 \<Longrightarrow> digit_val (digit_char d) = d"
  by (drule below_ten) (auto simp add: digit_val_def digit_char_def)

lemma is_digit_digit_char: "d < 10 \<Longrightarrow> is_digit (digit_char d)"
  by (drule below_ten) (auto simp add: is_digit_def digit_char_def)

lemma digit_not_space: "is_digit c \<Longrightarrow> \<not> is_space c"
  by (auto simp add: is_digit_def is_space_def)

lemma digit_not_sign: "is_digit c \<Longrightarrow> c \<noteq> CHR ''-'' \<and> c \<noteq> CHR ''+''"
  by (auto simp add: is_digit_def)

lemma nat_to_digits_all: "\<forall>c \<in> set (nat_to_digits n). is_digit c"
  by (induction n rule: nat_to_digits.induct)
     (subst nat_to_digits.simps, auto simp add: is_digit_digit_char)

lemma nat_to_digits_nonempty: "nat_to_digits n \<noteq> []"
  by (subst nat_to_digits.simps) simp

lemma digits_value_snoc: "digits_value (ds @ [c]) = 10 * digits_value ds + digit_val c"
  by (simp add: digits_value_def)

lemma digits_value_nat_to_digits: "digits_value (nat_to_digits n) = n"
proof (induction n rule: nat_to_digits.induct)
  case (1 n)
  show ?case
  proof (cases "n < 10")
    case True
    then show ?thesis
      by (subst nat_to_digits.simps) (simp add: digits_value_def digit_val_digit_char)
  next
    case False
    with 1 have "digits_value (nat_to_digits (n div 10)) = n div 10" by simp
    with False show ?thesis
      by (subst nat_to_digits.simps) (simp add: digits_value_snoc digit_val_digit_char)
  qed
qed

lemma str_to_int_int_to_str:
  assumes "INT_MIN \<le> c" "c \<le> INT_MAX"
  shows "str_to_int unwritten (int_to_str c) = c"
proof -
  obtain d ds where ds: "nat_to_digits (nat \<bar>c\<bar>) = d # ds"
    using nat_to_digits_nonempty by (cases "nat_to_digits (nat \<bar>c\<bar>)") auto
  have all: "\<forall>x \<in> set (d # ds). is_digit x"
    using nat_to_digits_all [of "nat \<bar>c\<bar>"] ds by simp
  then have d: "is_digit d" by simp
  have tw: "takeWhile is_digit (d # ds) = d # ds"
    using all by (simp only: takeWhile_eq_all_conv)
  have val: "digits_value (d # ds) = nat \<bar>c\<bar>"
    using digits_value_nat_to_digits [of "nat \<bar>c\<bar>"] ds by simp
  show ?thesis
  proof (cases "c < 0")
    case True
    then have "int_to_str c = CHR ''-'' # d # ds"
      using ds by (simp add: int_to_str_def abs_if)
    moreover have "\<not> is_space CHR ''-''" by (simp add: is_space_def)
    ultimately show ?thesis
      using True assms val by (simp add: str_to_int_def Let_def tw del: takeWhile.simps)
  next
    case False
    then have "int_to_str c = d # ds"
      using ds by (simp add: int_to_str_def abs_if)
    then show ?thesis
      using False assms val digit_not_space [OF d] digit_not_sign [OF d]
      by (simp add: str_to_int_def Let_def tw del: takeWhile.simps)
  qed
qed

lemma get_keycode_registered:
  "get_keycode unwritten m f nm =
     (case registered_code m f nm of
        Some code \<Rightarrow> code
      | None \<Rightarrow> if take 8 nm = ''UNKNOWN_'' then str_to_int unwritten (drop 8 nm) else 0)"
  by (simp add: get_keycode_def registered_code_def)

lemma get_keyname_portable:
  "get_keyname nr m ch f True =
     (case registered_name m f ch of
        Some nm \<Rightarrow> nm
      | None \<Rightarrow> ''UNKNOWN_'' @ int_to_str ch)"
  by (simp add: get_keyname_def registered_name_def split: option.splits)

lemma registered_after_add:
  "registered_name (add_keyboard_char_keycode_pair c nm m) keyboard_char c = Some nm"
  "registered_code (add_keyboard_char_keycode_pair c nm m) keyboard_char nm = Some c"
  "registered_name (add_keyboard_code_keycode_pair c nm m) keyboard_code c = Some nm"
  "registered_code (add_keyboard_code_keycode_pair c nm m) keyboard_code nm = Some c"
  "registered_name (add_gamepad_keycode_pair c nm m) gamepad c = Some nm"
  "registered_code (add_gamepad_keycode_pair c nm m) gamepad nm = Some c"
  "registered_name (add_mouse_keycode_pair c nm m) mouse c = Some nm"
  "registered_code (add_mouse_keycode_pair c nm m) mouse nm = Some c"
  by (simp_all add: registered_name_def registered_code_def keycode_to_keyname_map_def
      keyname_to_keycode_map_def add_keyboard_char_keycode_pair_def
      add_keyboard_code_keycode_pair_def add_gamepad_keycode_pair_def add_mouse_keycode_pair_def)

text \<open>The two tables of a family after one registration.\<close>

lemma registered_name_register:
  "registered_name (register r m) f c =
     (if registration_family r = f \<and> registration_code r = c then Some (registration_name r)
      else registered_name m f c)"
  by (cases r; cases f)
     (simp_all add: registered_name_def keycode_to_keyname_map_def
        add_keyboard_char_keycode_pair_def add_keyboard_code_keycode_pair_def
        add_gamepad_keycode_pair_def add_mouse_keycode_pair_def)

lemma registered_code_register:
  "registered_code (register r m) f nm =
     (if registration_family r = f \<and> registration_name r = nm then Some (registration_code r)
      else registered_code m f nm)"
  by (cases r; cases f)
     (simp_all add: registered_code_def keyname_to_keycode_map_def
        add_keyboard_char_keycode_pair_def add_keyboard_code_keycode_pair_def
        add_gamepad_keycode_pair_def add_mouse_keycode_pair_def)

text \<open>What is found in the tables after a sequence of registrations was registered.\<close>

lemma registered_name_fold:
  "registered_name (fold register rs m) f c = Some nm \<Longrightarrow>
     (\<exists>r \<in> set rs. registration_family r = f \<and> registration_code r = c
                   \<and> registration_name r = nm)
     \<or> registered_name m f c = Some nm"
proof (induction rs arbitrary: m)
  case Nil
  then show ?case by simp
next
  case (Cons r rs)
  from Cons.prems have "registered_name (fold register rs (register r m)) f c = Some nm"
    by simp
  from Cons.IH [OF this] show ?case
    by (auto simp add: registered_name_register split: if_splits)
qed

lemma registered_code_fold:
  "registered_code (fold register rs m) f nm = Some c \<Longrightarrow>
     (\<exists>r \<in> set rs. registration_family r = f \<and> registration_code r = c
                   \<and> registration_name r = nm)
     \<or> registered_code m f nm = Some c"
proof (induction rs arbitrary: m)
  case Nil
  then show ?case by simp
next
  case (Cons r rs)
  from Cons.prems have "registered_code (fold register rs (register r m)) f nm = Some c"
    by simp
  from Cons.IH [OF this] show ?case
    by (auto simp add: registered_code_register split: if_splits)
qed

lemma registered_code_fold_exists:
  "(\<exists>r \<in> set rs. registration_family r = f \<and> registration_name r = nm)
     \<or> registered_code m f nm \<noteq> None \<Longrightarrow>
   registered_code (fold register rs m) f nm \<noteq> None"
proof (induction rs arbitrary: m)
  case Nil
  then show ?case by simp
next
  case (Cons r rs)
  have "(\<exists>r \<in> set rs. registration_family r = f \<and> registration_name r = nm)
          \<or> registered_code (register r m) f nm \<noteq> None"
    using Cons.prems by (auto simp add: registered_code_register)
  from Cons.IH [OF this] show ?case by simp
qed

lemma registered_name_empty: "registered_name empty_manager f c = None"
  by (cases f) (simp_all add: registered_name_def keycode_to_keyname_map_def empty_manager_def)

lemma registered_code_empty: "registered_code empty_manager f nm = None"
  by (cases f) (simp_all add: registered_code_def keyname_to_keycode_map_def empty_manager_def)

lemmas registered_empty = registered_name_empty registered_code_empty




lemma unknown_prefix:
  "take 8 (''UNKNOWN_'' @ s) = ''UNKNOWN_''"
  "drop 8 (''UNKNOWN_'' @ s) = s"
  by simp_all

lemma registry_roundtrip:
  assumes range: "INT_MIN \<le> c" "c \<le> INT_MAX"
    and names: "\<forall>r1 \<in> set rs. \<forall>r2 \<in> set rs.
                  registration_family r1 = registration_family r2
                  \<and> registration_name r1 = registration_name r2
                  \<longrightarrow> registration_code r1 = registration_code r2"
    and unknown: "\<forall>r \<in> set rs.
                    registration_family r = f
                    \<and> registration_name r = ''UNKNOWN_'' @ int_to_str c
                    \<longrightarrow> registration_code r = c"
  shows "get_keycode unwritten (registry_of rs) f (get_keyname nr (registry_of rs) c f True) = c"
proof (cases "registered_name (registry_of rs) f c")
  case None
  show ?thesis
  proof (cases "registered_code (registry_of rs) f (''UNKNOWN_'' @ int_to_str c)")
    case no_code: None
    have "get_keyname nr (registry_of rs) c f True = ''UNKNOWN_'' @ int_to_str c"
      by (simp only: get_keyname_portable None option.case)
    moreover have "get_keycode unwritten (registry_of rs) f (''UNKNOWN_'' @ int_to_str c)
                     = str_to_int unwritten (int_to_str c)"
      by (simp only: get_keycode_registered no_code option.case unknown_prefix simp_thms if_True)
    ultimately show ?thesis
      by (simp only: str_to_int_int_to_str [OF range])
  next
    case (Some c')
    have "(\<exists>r \<in> set rs. registration_family r = f \<and> registration_code r = c'
                   \<and> registration_name r = ''UNKNOWN_'' @ int_to_str c)
          \<or> registered_code empty_manager f (''UNKNOWN_'' @ int_to_str c) = Some c'"
      by (rule registered_code_fold) (rule Some [unfolded registry_of_def])
    then obtain r where r: "r \<in> set rs" "registration_family r = f"
      "registration_code r = c'" "registration_name r = ''UNKNOWN_'' @ int_to_str c"
      unfolding registered_code_empty by blast
    from unknown r(1) have "registration_family r = f
        \<and> registration_name r = ''UNKNOWN_'' @ int_to_str c \<longrightarrow> registration_code r = c"
      by (rule bspec)
    with r have "c' = c" by blast
    have "get_keyname nr (registry_of rs) c f True = ''UNKNOWN_'' @ int_to_str c"
      by (simp only: get_keyname_portable None option.case)
    moreover have "get_keycode unwritten (registry_of rs) f (''UNKNOWN_'' @ int_to_str c) = c'"
      by (simp only: get_keycode_registered Some option.case)
    ultimately show ?thesis
      using \<open>c' = c\<close> by (simp only:)
  qed
next
  case (Some nm)
  have "(\<exists>r \<in> set rs. registration_family r = f \<and> registration_code r = c
                 \<and> registration_name r = nm)
        \<or> registered_name empty_manager f c = Some nm"
    by (rule registered_name_fold) (rule Some [unfolded registry_of_def])
  then obtain r where r: "r \<in> set rs" "registration_family r = f" "registration_code r = c"
    "registration_name r = nm"
    unfolding registered_name_empty by blast
  have "registered_code (fold register rs empty_manager) f nm \<noteq> None"
    by (rule registered_code_fold_exists) (use r in blast)
  then obtain c' where c': "registered_code (registry_of rs) f nm = Some c'"
    unfolding registry_of_def by blast
  have "(\<exists>r \<in> set rs. registration_family r = f \<and> registration_code r = c'
                 \<and> registration_name r = nm)
        \<or> registered_code empty_manager f nm = Some c'"
    by (rule registered_code_fold) (rule c' [unfolded registry_of_def])
  then obtain r' where r': "r' \<in> set rs" "registration_family r' = f"
    "registration_code r' = c'" "registration_name r' = nm"
    unfolding registered_code_empty by blast
  from names r(1) have "\<forall>r2 \<in> set rs. registration_family r = registration_family r2
        \<and> registration_name r = registration_name r2
        \<longrightarrow> registration_code r = registration_code r2"
    by (rule bspec)
  from this r'(1) have "registration_family r = registration_family r'
        \<and> registration_name r = registration_name r'
        \<longrightarrow> registration_code r = registration_code r'"
    by (rule bspec)
  with r r' have "c' = c" by simp
  have "get_keyname nr (registry_of rs) c f True = nm"
    by (simp only: get_keyname_portable Some option.case)
  moreover have "get_keycode unwritten (registry_of rs) f nm = c'"
    by (simp only: get_keycode_registered c' option.case)
  ultimately show ?thesis
    using \<open>c' = c\<close> by (simp only:)
qed

text \<open>
  C6, as the code has it: take the registry after any sequence of registrations in
  which no name is registered in one family for two different codes. For a device
  family \<open>f\<close> and a code \<open>c\<close> in the range of \<open>int\<close>, such that the name \<open>UNKNOWN_\<close>
  followed by the decimal digits of \<open>c\<close> is registered in \<open>f\<close> for no code other than
  \<open>c\<close>, resolving the portable name of \<open>c\<close> gives \<open>c\<close> again. Right after a pair is
  registered in a family, the name resolves to the code and the code portably to the
  name.
\<close>

theorem C6_keycode_roundtrip:
  "(INT_MIN \<le> c \<and> c \<le> INT_MAX
      \<and> (\<forall>r1 \<in> set rs. \<forall>r2 \<in> set rs.
            registration_family r1 = registration_family r2
            \<and> registration_name r1 = registration_name r2
            \<longrightarrow> registration_code r1 = registration_code r2)
      \<and> (\<forall>r \<in> set rs.
            registration_family r = f \<and> registration_name r = ''UNKNOWN_'' @ int_to_str c
            \<longrightarrow> registration_code r = c)
      \<longrightarrow> get_keycode unwritten (registry_of rs) f (get_keyname nr (registry_of rs) c f True) = c)
   \<and> get_keycode unwritten (add_keyboard_char_keycode_pair c nm m) keyboard_char nm = c
   \<and> get_keyname nr (add_keyboard_char_keycode_pair c nm m) c keyboard_char True = nm
   \<and> get_keycode unwritten (add_keyboard_code_keycode_pair c nm m) keyboard_code nm = c
   \<and> get_keyname nr (add_keyboard_code_keycode_pair c nm m) c keyboard_code True = nm
   \<and> get_keycode unwritten (add_gamepad_keycode_pair c nm m) gamepad nm = c
   \<and> get_keyname nr (add_gamepad_keycode_pair c nm m) c gamepad True = nm
   \<and> get_keycode unwritten (add_mouse_keycode_pair c nm m) mouse nm = c
   \<and> get_keyname nr (add_mouse_keycode_pair c nm m) c mouse True = nm"
proof (intro conjI impI)
  assume h: "INT_MIN \<le> c \<and> c \<le> INT_MAX
      \<and> (\<forall>r1 \<in> set rs. \<forall>r2 \<in> set rs.
            registration_family r1 = registration_family r2
            \<and> registration_name r1 = registration_name r2
            \<longrightarrow> registration_code r1 = registration_code r2)
      \<and> (\<forall>r \<in> set rs.
            registration_family r = f \<and> registration_name r = ''UNKNOWN_'' @ int_to_str c
            \<longrightarrow> registration_code r = c)"
  show "get_keycode unwritten (registry_of rs) f (get_keyname nr (registry_of rs) c f True) = c"
    by (rule registry_roundtrip) (use h in blast)+
qed (simp_all add: get_keycode_registered get_keyname_portable registered_after_add)

lemma example_unknown_name: "int_to_str 9999 = ''9999''"
  by (simp add: int_to_str_def nat_to_digits.simps digit_char_def)

theorem C6_keycode_roundtrip_witness:
  "INT_MIN \<le> 9999 \<and> 9999 \<le> INT_MAX
   \<and> get_keyname plain_resources (registry_of [for_keyboard_char 65 ''A'']) 9999
       keyboard_char True = ''UNKNOWN_9999''
   \<and> get_keycode 0 (registry_of [for_keyboard_char 65 ''A'']) keyboard_char ''UNKNOWN_9999''
       = 9999
   \<and> get_keycode 0 (registry_of [for_keyboard_char 65 ''A'']) keyboard_char ''A'' = 65
   \<and> get_keyname plain_resources (registry_of [for_keyboard_char 65 ''A'']) 65
       keyboard_char True = ''A''"
proof -
  have none: "registered_name (registry_of [for_keyboard_char 65 ''A'']) keyboard_char 9999 = None"
    by (simp add: registry_of_def registered_name_register registered_empty del: register.simps)
  have nm: "get_keyname plain_resources (registry_of [for_keyboard_char 65 ''A'']) 9999
              keyboard_char True = ''UNKNOWN_9999''"
    by (simp add: get_keyname_portable none example_unknown_name)
  have reg: "registry_of [for_keyboard_char 65 ''A'']
               = add_keyboard_char_keycode_pair 65 ''A'' empty_manager"
    by (simp add: registry_of_def)
  have unknown: "get_keycode 0 (registry_of [for_keyboard_char 65 ''A'']) keyboard_char
                   (get_keyname plain_resources (registry_of [for_keyboard_char 65 ''A''])
                      9999 keyboard_char True) = 9999"
    using C6_keycode_roundtrip [where c = 9999 and rs = "[for_keyboard_char 65 ''A'']"
        and f = keyboard_char and nr = plain_resources and unwritten = 0
        and m = empty_manager and nm = "''A''"]
    by (simp add: INT_MIN_def INT_MAX_def)
  have known: "get_keycode 0 (add_keyboard_char_keycode_pair 65 ''A'' empty_manager)
                 keyboard_char ''A'' = 65
               \<and> get_keyname plain_resources
                   (add_keyboard_char_keycode_pair 65 ''A'' empty_manager) 65
                   keyboard_char True = ''A''"
    using C6_keycode_roundtrip [where c = 65 and m = empty_manager and nm = "''A''"
        and nr = plain_resources and unwritten = 0 and rs = "[]" and f = keyboard_char]
    by simp
  show ?thesis
    using unknown known nm unfolding reg by (simp add: INT_MIN_def INT_MAX_def)
qed

text \<open>
  The claim C6 as it is written speaks of every code, whatever has been registered.
  After the codes 1 and 2 have both been registered under the name "A" for the
  character keyboard, the portable name of 1 is "A", which resolves to 2. After the
  code 7 has been registered under the name "UNKNOWN_5", the portable name of the
  unregistered code 5 is "UNKNOWN_5", which resolves to 7.
\<close>

theorem C6_name_registered_twice_counterexample:
  "get_keycode 0 (registry_of [for_keyboard_char 1 ''A'', for_keyboard_char 2 ''A''])
     keyboard_char
     (get_keyname plain_resources
        (registry_of [for_keyboard_char 1 ''A'', for_keyboard_char 2 ''A''])
        1 keyboard_char True)
   \<noteq> 1
   \<and> get_keycode 0 (registry_of [for_keyboard_char 7 ''UNKNOWN_5''])
       keyboard_char
       (get_keyname plain_resources (registry_of [for_keyboard_char 7 ''UNKNOWN_5''])
          5 keyboard_char True)
     \<noteq> 5"
proof -
  have a: "registered_name (registry_of [for_keyboard_char 1 ''A'', for_keyboard_char 2 ''A''])
             keyboard_char 1 = Some ''A''"
    by (simp add: registry_of_def registered_name_register registered_name_empty
        del: register.simps)
  have b: "registered_code (registry_of [for_keyboard_char 1 ''A'', for_keyboard_char 2 ''A''])
             keyboard_char ''A'' = Some 2"
    by (simp add: registry_of_def registered_code_register registered_code_empty
        del: register.simps)
  have c: "registered_name (registry_of [for_keyboard_char 7 ''UNKNOWN_5'']) keyboard_char 5
             = None"
    by (simp add: registry_of_def registered_name_register registered_name_empty
        del: register.simps)
  have d: "registered_code (registry_of [for_keyboard_char 7 ''UNKNOWN_5'']) keyboard_char
             ''UNKNOWN_5'' = Some 7"
    by (simp add: registry_of_def registered_code_register registered_code_empty
        del: register.simps)
  have e: "int_to_str 5 = ''5''"
    by (simp add: int_to_str_def nat_to_digits.simps digit_char_def)
  show ?thesis
    by (simp add: get_keycode_registered get_keyname_portable a b c d e)
qed


section \<open>Properties of the editing protocol\<close>

lemma entry_steady_refl: "entry_steady d x x"
  by (simp add: entry_steady_def split: option.splits)

lemma entry_steady_trans:
  "entry_steady d x y \<Longrightarrow> entry_steady d y z \<Longrightarrow> entry_steady d x z"
  by (auto simp add: entry_steady_def split: option.splits)

lemma steady_refl: "steady ac ac"
  by (simp add: steady_def entry_steady_refl)

lemma steady_trans: "steady a b \<Longrightarrow> steady b c \<Longrightarrow> steady a c"
  unfolding steady_def by (blast intro: entry_steady_trans)

lemma steady_get_action_attributes: "steady ac (fst (get_action_attributes ac b d))"
  by (simp add: steady_def get_action_attributes_table entry_steady_def
      new_action_attributes_def split: option.splits)

lemma steady_action_uses_input: "steady ac (fst (action_uses_input ac ctxt a e))"
  by (simp add: action_uses_input_eq steady_get_action_attributes)

lemma steady_get_action_name: "steady ac (fst (get_action_name nr ac ctxt a))"
  by (auto simp add: get_action_name_eq Let_def steady_refl steady_get_action_attributes
      split: option.splits
      intro: steady_trans [OF steady_get_action_attributes steady_get_action_attributes])

lemma steady_conflict_strings: "steady ac (fst (conflict_strings nr ctxt e ac regs))"
proof (induction regs arbitrary: ac)
  case Nil
  show ?case by (simp add: steady_refl)
next
  case (Cons action rest)
  let ?ac1 = "fst (action_uses_input ac ctxt action e)"
  let ?ac2 = "if snd (action_uses_input ac ctxt action e)
              then fst (get_action_name nr ?ac1 ctxt action) else ?ac1"
  have s2: "steady ac ?ac2"
    using steady_action_uses_input [of ac ctxt action e]
      steady_trans [OF steady_action_uses_input steady_get_action_name]
    by simp
  have step: "fst (conflict_strings nr ctxt e ac (action # rest))
                = fst (conflict_strings nr ctxt e ?ac2 rest)"
    by (simp split: prod.splits)
  show ?case
    unfolding step using s2 Cons.IH [of ?ac2] by (rule steady_trans)
qed

lemma steady_get_conflicts: "steady ac (fst (get_conflicts nr ac ctxt e))"
  by (simp add: get_conflicts_def case_prod_beta steady_conflict_strings)

lemma find_action_update_action:
  "find_action (update_action ac c a f) c' a' =
     (if c' = c \<and> a' = a then map_option f (find_action ac c a) else find_action ac c' a')"
  by (auto simp add: update_action_def find_action_def split: option.splits)

lemma find_action_create_context:
  "find_action (ac(c \<mapsto> context_at ac c)) c' a = find_action ac c' a"
  by (simp add: find_action_def context_at_def split: option.splits)

lemma steady_update_action:
  "(\<And>x. name (f x) = name x \<and> is_user_created (f x) = is_user_created x) \<Longrightarrow>
     steady ac (update_action ac c a f)"
  by (simp add: steady_def find_action_update_action entry_steady_def split: option.splits)

lemma steady_fold_remove_event:
  "steady ac (fold (\<lambda>registered_action tbl.
                 update_action
                   (update_action tbl default_context_id registered_action (remove_event event))
                   cat registered_action (remove_event event)) regs ac)"
proof (induction regs arbitrary: ac)
  case Nil
  show ?case by (simp add: steady_refl)
next
  case (Cons a rest)
  have keep: "name (remove_event event x) = name x
                \<and> is_user_created (remove_event event x) = is_user_created x" for x
    by (simp add: remove_event_def)
  let ?ac1 = "update_action
                (update_action ac default_context_id a (remove_event event))
                cat a (remove_event event)"
  have "steady ac ?ac1"
    using steady_trans [OF steady_update_action steady_update_action] keep by blast
  then show ?case
    using Cons.IH [of ?ac1] by (auto intro: steady_trans)
qed

lemma steady_clear_conflicting_keybindings:
  "steady ac (clear_conflicting_keybindings ac ctxt event)"
proof -
  let ?ac1 = "ac(default_context_id \<mapsto> context_at ac default_context_id)"
  let ?ac2 = "?ac1(category ctxt \<mapsto> context_at ?ac1 (category ctxt))"
  have "steady ac ?ac2"
    by (simp add: steady_def find_action_create_context entry_steady_refl)
  then show ?thesis
    unfolding clear_conflicting_keybindings_def Let_def
    by (rule steady_trans) (rule steady_fold_remove_event)
qed

lemma find_action_add_input_for_action:
  "find_action (add_input_for_action ac a c e) c' a' =
     (if c' = c \<and> a' = a
      then (case find_action ac c a of
              None \<Rightarrow>
                Some \<lparr>name = (case find_action ac default_context_id a of
                                Some global \<Rightarrow> name global
                              | None \<Rightarrow> if c = default_context_id then [] else no_translation a),
                      input_events = [e], is_user_created = True\<rparr>
            | Some x \<Rightarrow>
                Some (if list_ex (\<lambda>b. input_event_eq b e) (input_events x) then x
                      else x\<lparr>input_events := input_events x @ [e]\<rparr>))
      else find_action ac c' a')"
  by (auto simp add: add_input_for_action_def get_or_create_event_list_def update_action_def
      get_default_action_name_def find_action_def context_at_def new_action_attributes_def
      Let_def split: option.splits)


lemma steady_exists:
  assumes "steady x y" and "find_action x c b \<noteq> None"
  shows "find_action y c b \<noteq> None"
proof -
  from assms(1) have "entry_steady (c = default_context_id) (find_action x c b) (find_action y c b)"
    by (simp add: steady_def)
  with assms(2) show ?thesis
    by (auto simp add: entry_steady_def split: option.splits)
qed

lemma steady_new_entries:
  assumes "steady ac ac'" and "find_action ac c b = None"
  shows "case find_action ac' c b of
           None \<Rightarrow> True
         | Some entry \<Rightarrow>
             if c = default_context_id then \<not> is_user_created entry
             else is_user_created entry
                  \<and> (\<exists>global. find_action ac' default_context_id b = Some global
                        \<and> name entry = name global)"
proof -
  from assms(1) have "entry_steady (c = default_context_id) (find_action ac c b) (find_action ac' c b)"
    by (simp add: steady_def)
  with assms(2) show ?thesis
    by (auto simp add: entry_steady_def split: option.splits)
qed

lemma add_new_entries:
  assumes st: "steady ac ac5"
    and ex: "find_action ac5 t a = None \<longrightarrow>
               t \<noteq> default_context_id \<and> find_action ac5 default_context_id a \<noteq> None"
    and none: "find_action ac c b = None"
  shows "case find_action (add_input_for_action ac5 a t e) c b of
           None \<Rightarrow> True
         | Some entry \<Rightarrow>
             if c = default_context_id then \<not> is_user_created entry
             else is_user_created entry
                  \<and> (\<exists>global. find_action (add_input_for_action ac5 a t e)
                                 default_context_id b = Some global
                        \<and> name entry = name global)"
proof (cases "c = t \<and> b = a")
  case False
  then have same: "find_action (add_input_for_action ac5 a t e) c b = find_action ac5 c b"
    by (auto simp add: find_action_add_input_for_action)
  from st have "entry_steady (c = default_context_id) (find_action ac c b) (find_action ac5 c b)"
    by (simp add: steady_def)
  with none same show ?thesis
    by (auto simp add: entry_steady_def split: option.splits)
next
  case True
  then have c: "c = t" and b: "b = a" by simp_all
  show ?thesis
  proof (cases "find_action ac5 t a")
    case None
    with ex obtain global where t: "t \<noteq> default_context_id"
      and g: "find_action ac5 default_context_id a = Some global"
      by auto
    have glob: "find_action (add_input_for_action ac5 a t e) default_context_id a = Some global"
      using t g by (simp add: find_action_add_input_for_action)
    show ?thesis
      using None t g glob by (simp add: c b find_action_add_input_for_action)
  next
    case (Some x)
    from st have "entry_steady (c = default_context_id) (find_action ac c b) (find_action ac5 c b)"
      by (simp add: steady_def)
    with none Some have "t = default_context_id \<and> \<not> is_user_created x"
      by (auto simp add: c b entry_steady_def)
    with Some show ?thesis
      by (simp add: c b find_action_add_input_for_action)
  qed
qed

lemma editor_select_new_entries:
  assumes status: "status = s_add \<or> status = s_add_global"
    and none: "find_action ac c b = None"
  shows "case find_action (fst (editor_select nr ctxt status rc e cc ac a)) c b of
           None \<Rightarrow> True
         | Some entry \<Rightarrow>
             if c = default_context_id then \<not> is_user_created entry
             else is_user_created entry
                  \<and> (\<exists>global. find_action (fst (editor_select nr ctxt status rc e cc ac a))
                                 default_context_id b = Some global
                        \<and> name entry = name global)"
proof -
  define t where "t = (if status = s_add_global then default_context_id else category ctxt)"
  define ac1 where "ac1 = fst (get_action_attributes ac a (category ctxt))"
  define is_local where "is_local = snd (snd (get_action_attributes ac a (category ctxt)))"
  define ac2 where "ac2 = fst (get_action_name nr ac1 ctxt a)"
  define ac3 where "ac3 = fst (action_uses_input ac2 ctxt a e)"
  define used where "used = snd (action_uses_input ac2 ctxt a e)"
  define ac4 where "ac4 = fst (get_conflicts nr ac3 ctxt e)"
  define conflicts where "conflicts = snd (get_conflicts nr ac3 ctxt e)"
  define ac5 where
    "ac5 = (if conflicts \<noteq> [] \<and> cc then clear_conflicting_keybindings ac4 ctxt e else ac4)"
  have s1: "steady ac ac1"
    unfolding ac1_def by (rule steady_get_action_attributes)
  have s12: "steady ac1 ac2"
    unfolding ac2_def by (rule steady_get_action_name)
  have s23: "steady ac2 ac3"
    unfolding ac3_def by (rule steady_action_uses_input)
  have s34: "steady ac3 ac4"
    unfolding ac4_def by (rule steady_get_conflicts)
  have s45: "steady ac4 ac5"
    unfolding ac5_def by (simp add: steady_refl steady_clear_conflicting_keybindings)
  note s15 = steady_trans [OF steady_trans [OF steady_trans [OF s12 s23] s34] s45]
  note s2 = steady_trans [OF s1 s12]
  note s3 = steady_trans [OF s2 s23]
  note s4 = steady_trans [OF s3 s34]
  note s5 = steady_trans [OF s4 s45]
  have loc: "is_local \<longleftrightarrow>
               category ctxt \<noteq> default_context_id \<and> find_action ac (category ctxt) a \<noteq> None"
    unfolding is_local_def by (simp add: get_action_attributes_result split: option.splits)
  have mat: "find_action ac1 default_context_id a \<noteq> None" if "\<not> is_local"
    using that loc unfolding ac1_def by (auto simp add: get_action_attributes_table)
  have ex: "find_action ac5 t a = None \<longrightarrow>
              t \<noteq> default_context_id \<and> find_action ac5 default_context_id a \<noteq> None"
    if go: "\<not> (status = s_add_global \<and> is_local)"
  proof (cases is_local)
    case True
    with go loc have "find_action ac t a \<noteq> None"
      by (auto simp add: t_def)
    then have "find_action ac5 t a \<noteq> None"
      by (rule steady_exists [OF s5])
    then show ?thesis by blast
  next
    case False
    then have "find_action ac1 default_context_id a \<noteq> None"
      by (rule mat)
    then have d: "find_action ac5 default_context_id a \<noteq> None"
      by (rule steady_exists [OF s15])
    show ?thesis
    proof (cases "t = default_context_id")
      case True
      with d show ?thesis by simp
    next
      case False
      with d show ?thesis by simp
    qed
  qed
  have result: "fst (editor_select nr ctxt status rc e cc ac a) =
      (if status = s_add_global \<and> is_local then ac2
       else if used then ac3
       else if conflicts = [] \<or> cc then add_input_for_action ac5 a t e
       else ac4)"
    using status
    unfolding t_def ac1_def is_local_def ac2_def ac3_def used_def ac4_def conflicts_def ac5_def
    by (auto simp add: editor_select_def Let_def case_prod_beta)
  show ?thesis
  proof (cases "status = s_add_global \<and> is_local")
    case True
    with result have eq: "fst (editor_select nr ctxt status rc e cc ac a) = ac2" by simp
    show ?thesis
      unfolding eq by (rule steady_new_entries [OF s2 none])
  next
    case go: False
    show ?thesis
    proof (cases used)
      case True
      with go result have eq: "fst (editor_select nr ctxt status rc e cc ac a) = ac3" by auto
      show ?thesis
        unfolding eq by (rule steady_new_entries [OF s3 none])
    next
      case unused: False
      show ?thesis
      proof (cases "conflicts = [] \<or> cc")
        case True
        with go unused result
        have eq: "fst (editor_select nr ctxt status rc e cc ac a) = add_input_for_action ac5 a t e"
          by auto
        show ?thesis
          unfolding eq by (rule add_new_entries [OF s5 ex [OF go] none])
      next
        case False
        with go unused result have eq: "fst (editor_select nr ctxt status rc e cc ac a) = ac4"
          by auto
        show ?thesis
          unfolding eq by (rule steady_new_entries [OF s4 none])
      qed
    qed
  qed
qed


lemma load_action_user_created:
  assumes l: "load_action unwritten u r m = Inr m'"
    and none: "find_action (action_contexts m) c b = None"
    and some: "find_action (action_contexts m') c b = Some entry"
    and marked: "is_user_created entry"
  shows "ja_is_user_created r = Some True"
proof (cases "(case ja_type r of None \<Rightarrow> ''keybinding'' | Some t \<Rightarrow> t) = ''keybinding''")
  case False
  with l have "m' = m"
    by (simp add: load_action_def Let_def)
  with none some show ?thesis by simp
next
  case kb: True
  obtain events where rb: "read_bindings unwritten m (ja_bindings r) = Inr events"
    using l kb by (cases "read_bindings unwritten m (ja_bindings r)") (simp_all add: load_action_def Let_def)
  define cat where "cat = (case ja_category r of None \<Rightarrow> default_context_id | Some c \<Rightarrow> c)"
  define actions where "actions = (case ja_name r of
                      Some n \<Rightarrow>
                        if \<not> u
                        then (context_at (action_contexts m) cat)(ja_id r \<mapsto>
                               (case context_at (action_contexts m) cat (ja_id r) of
                                  None \<Rightarrow> new_action_attributes
                                | Some a \<Rightarrow> a)\<lparr>name := n\<rparr>)
                        else context_at (action_contexts m) cat
                    | None \<Rightarrow> context_at (action_contexts m) cat)"
  define old where "old = (case actions (ja_id r) of None \<Rightarrow> new_action_attributes | Some a \<Rightarrow> a)"
  note result = load_action_keybinding [OF kb rb cat_def actions_def old_def]
  have other: "actions b' = find_action (action_contexts m) cat b'" if "b' \<noteq> ja_id r" for b'
    using that by (simp add: actions_def context_at_find split: option.splits)
  have fresh: "\<not> is_user_created old" if "find_action (action_contexts m) cat (ja_id r) = None"
    using that
    by (simp add: old_def actions_def context_at_find new_action_attributes_def
        split: option.splits)
  have at: "find_action (action_contexts m') c b =
      (if c = cat then
         (if \<not> u \<or> events \<noteq> [] \<or> cat = default_context_id \<or> actions (ja_id r) \<noteq> None
          then (actions(ja_id r \<mapsto>
                    old\<lparr>input_events :=
                          (if u \<and> (ja_version r = None \<or> ja_version r = Some 0)
                           then events @ filter (\<lambda>evt. etype evt = keyboard_code)
                                           (input_events old)
                           else events),
                        is_user_created :=
                          (case ja_is_user_created r of
                             None \<Rightarrow> is_user_created old
                           | Some b \<Rightarrow> b)\<rparr>)) b
          else actions b)
       else find_action (action_contexts m) c b)"
    using l unfolding result by (auto simp add: find_action_upd_context)
  show ?thesis
  proof (cases "c = cat \<and> b = ja_id r")
    case False
    with at none some other [of b] show ?thesis
      by (auto split: if_splits)
  next
    case True
    then have c: "c = cat" and b: "b = ja_id r" by simp_all
    from none have n: "find_action (action_contexts m) cat (ja_id r) = None"
      by (simp add: c b)
    show ?thesis
      using at some marked fresh [OF n]
      by (auto simp add: c b old_def split: if_splits option.splits)
  qed
qed

text \<open>
  C10: an entry that \<open>add_input_for_action\<close> creates (the pair of action id and context
  had no entry before) is marked user-created, holds the added event, and has the
  display name of the global default entry of the action id when there is one. In the
  editing protocol, the step of the keybindings editor that adds a local or a global
  binding, the global default entry exists by the time of the add, because the editor
  resolves the action first: every entry that is new after the step is, in a context
  other than "default", marked user-created and named as the global default entry of
  its action id, and in the "default" context it was created by a resolution and is
  not marked user-created. An entry created by a resolution is never marked
  user-created, and an entry created by loading a record is marked user-created only
  when the record itself carries \<open>is_user_created = true\<close>.
\<close>

theorem C10_user_created_entries:
  "(find_action ac c a = None \<longrightarrow>
      (case find_action (add_input_for_action ac a c e) c a of
         None \<Rightarrow> False
       | Some entry \<Rightarrow>
           is_user_created entry \<and> input_events entry = [e]
           \<and> (\<forall>global. find_action ac default_context_id a = Some global
                 \<longrightarrow> name entry = name global)))
   \<and> ((status = s_add \<or> status = s_add_global) \<and> find_action ac c b = None \<longrightarrow>
      (case find_action (fst (editor_select nr ctxt status rc e cc ac a)) c b of
         None \<Rightarrow> True
       | Some entry \<Rightarrow>
           if c = default_context_id then \<not> is_user_created entry
           else is_user_created entry
                \<and> (\<exists>global. find_action (fst (editor_select nr ctxt status rc e cc ac a))
                               default_context_id b = Some global
                      \<and> name entry = name global)))
   \<and> (find_action ac c b = None \<longrightarrow>
      (case find_action (fst (get_action_attributes ac a d)) c b of
         None \<Rightarrow> True
       | Some entry \<Rightarrow> \<not> is_user_created entry))
   \<and> (load_action unwritten u r m = Inr m' \<and> find_action (action_contexts m) c b = None
        \<and> find_action (action_contexts m') c b = Some entry' \<and> is_user_created entry'
      \<longrightarrow> ja_is_user_created r = Some True)"
proof (intro conjI impI)
  assume "find_action ac c a = None"
  then show "case find_action (add_input_for_action ac a c e) c a of
         None \<Rightarrow> False
       | Some entry \<Rightarrow>
           is_user_created entry \<and> input_events entry = [e]
           \<and> (\<forall>global. find_action ac default_context_id a = Some global
                 \<longrightarrow> name entry = name global)"
    by (simp add: find_action_add_input_for_action)
next
  assume "(status = s_add \<or> status = s_add_global) \<and> find_action ac c b = None"
  then show "case find_action (fst (editor_select nr ctxt status rc e cc ac a)) c b of
         None \<Rightarrow> True
       | Some entry \<Rightarrow>
           if c = default_context_id then \<not> is_user_created entry
           else is_user_created entry
                \<and> (\<exists>global. find_action (fst (editor_select nr ctxt status rc e cc ac a))
                               default_context_id b = Some global
                      \<and> name entry = name global)"
    using editor_select_new_entries by blast
next
  assume "find_action ac c b = None"
  then show "case find_action (fst (get_action_attributes ac a d)) c b of
         None \<Rightarrow> True
       | Some entry \<Rightarrow> \<not> is_user_created entry"
    by (simp add: get_action_attributes_table new_action_attributes_def)
next
  assume "load_action unwritten u r m = Inr m' \<and> find_action (action_contexts m) c b = None
        \<and> find_action (action_contexts m') c b = Some entry' \<and> is_user_created entry'"
  then show "ja_is_user_created r = Some True"
    using load_action_user_created by blast
qed


theorem C10_user_created_entries_witness:
  "find_action [''default'' \<mapsto> [''UP'' \<mapsto> \<lparr>name = ''Up'', input_events = [],
                                         is_user_created = False\<rparr>]] ''vehicle'' ''UP'' = None
   \<and> find_action (add_input_for_action [''default'' \<mapsto> [''UP'' \<mapsto> \<lparr>name = ''Up'', input_events = [],
                                         is_user_created = False\<rparr>]] ''UP'' ''vehicle'' \<lparr>etype = keyboard_char, modifiers = {}, sequence = [107], mouse_pos = (0, 0)\<rparr>) ''vehicle'' ''UP''
       = Some \<lparr>name = ''Up'', input_events = [\<lparr>etype = keyboard_char, modifiers = {}, sequence = [107], mouse_pos = (0, 0)\<rparr>], is_user_created = True\<rparr>
   \<and> find_action
         (fst (editor_select plain_resources \<lparr>registered_actions = [''UP''], category = ''vehicle'',
        registered_any_input = False, handling_coordinate_input = False,
        next_action = \<lparr>etype = error, modifiers = {}, sequence = [], mouse_pos = (0, 0)\<rparr>,
        coordinate_input_received = False, coordinate = (0, 0),
        action_name_overrides = Map.empty, preferred_keyboard_mode = keychar\<rparr> s_add True \<lparr>etype = keyboard_char, modifiers = {}, sequence = [107], mouse_pos = (0, 0)\<rparr> True [''default'' \<mapsto> [''UP'' \<mapsto> \<lparr>name = ''Up'', input_events = [],
                                         is_user_created = False\<rparr>]] ''UP''))
         ''vehicle'' ''UP''
       = Some \<lparr>name = ''Up'', input_events = [\<lparr>etype = keyboard_char, modifiers = {}, sequence = [107], mouse_pos = (0, 0)\<rparr>], is_user_created = True\<rparr>
   \<and> find_action (fst (get_action_attributes Map.empty ''QUIT'' ''vehicle''))
         default_context_id ''QUIT''
       = Some \<lparr>name = ''QUIT'', input_events = [], is_user_created = False\<rparr>
   \<and> load_action 0 True \<lparr>ja_version = Some 1, ja_type = None, ja_id = ''UP'', ja_category = Some ''vehicle'',
        ja_name = None,
        ja_bindings = [\<lparr>jb_input_method = ''keyboard_char'', jb_mod = None,
                         jb_key = key_string ''k''\<rparr>],
        ja_is_user_created = Some True\<rparr> (add_keyboard_char_keycode_pair 107 ''k'' empty_manager)
       = Inr ((add_keyboard_char_keycode_pair 107 ''k'' empty_manager)
          \<lparr>action_contexts :=
             [''vehicle'' \<mapsto> [''UP'' \<mapsto> \<lparr>name = [], input_events = [\<lparr>etype = keyboard_char, modifiers = {}, sequence = [107], mouse_pos = (0, 0)\<rparr>],
                                             is_user_created = True\<rparr>]]\<rparr>)"
proof -
  let ?tbl = "[''default'' \<mapsto> [''UP'' \<mapsto> \<lparr>name = ''Up'', input_events = [],
                                         is_user_created = False\<rparr>]]"
  let ?ctxt = "\<lparr>registered_actions = [''UP''], category = ''vehicle'',
        registered_any_input = False, handling_coordinate_input = False,
        next_action = \<lparr>etype = error, modifiers = {}, sequence = [], mouse_pos = (0, 0)\<rparr>,
        coordinate_input_received = False, coordinate = (0, 0),
        action_name_overrides = Map.empty, preferred_keyboard_mode = keychar\<rparr>"
  let ?e = "\<lparr>etype = keyboard_char, modifiers = {}, sequence = [107], mouse_pos = (0, 0)\<rparr>"
  have none: "find_action ?tbl ''vehicle'' ''UP'' = None"
    by (simp add: find_action_def)
  have glob: "find_action ?tbl default_context_id ''UP''
                = Some \<lparr>name = ''Up'', input_events = [], is_user_created = False\<rparr>"
    by (simp add: find_action_def default_context_id_def)
  have added: "find_action (add_input_for_action ?tbl ''UP'' ''vehicle'' ?e) ''vehicle'' ''UP''
                 = Some \<lparr>name = ''Up'', input_events = [\<lparr>etype = keyboard_char, modifiers = {}, sequence = [107], mouse_pos = (0, 0)\<rparr>], is_user_created = True\<rparr>"
    by (simp add: find_action_add_input_for_action none glob)
  have res: "get_action_attributes ?tbl ''UP'' ''vehicle''
               = (?tbl, \<lparr>name = ''Up'', input_events = [], is_user_created = False\<rparr>, False)"
    using glob none by (rule get_action_attributes_existing_default [OF _ disjI2])
  have nm: "get_action_name plain_resources ?tbl ?ctxt ''UP'' = (?tbl, ''Up'')"
    by (simp add: get_action_name_def res plain_resources_def)
  have uses: "action_uses_input ?tbl ?ctxt ''UP'' ?e = (?tbl, False)"
    by (simp add: action_uses_input_def res)
  have conf: "get_conflicts plain_resources ?tbl ?ctxt ?e = (?tbl, [])"
    by (simp add: get_conflicts_def uses plain_resources_def)
  have run: "fst (editor_select plain_resources ?ctxt s_add True ?e True ?tbl ''UP'')
               = add_input_for_action ?tbl ''UP'' ''vehicle'' ?e"
    by (simp add: editor_select_def res nm uses conf)
  have mat: "find_action (fst (get_action_attributes Map.empty ''QUIT'' ''vehicle''))
               default_context_id ''QUIT''
             = Some \<lparr>name = ''QUIT'', input_events = [], is_user_created = False\<rparr>"
    by (simp add: get_action_attributes_table)
       (simp add: find_action_def new_action_attributes_def no_translation_def)
  have rb: "read_bindings 0 (add_keyboard_char_keycode_pair 107 ''k'' empty_manager)
              [\<lparr>jb_input_method = ''keyboard_char'', jb_mod = None, jb_key = key_string ''k''\<rparr>]
            = Inr [?e]"
    by (simp add: read_bindings_def read_keybinding_def new_event_types_def
        get_keycode_def keyname_to_keycode_map_def add_keyboard_char_keycode_pair_def
        empty_manager_def)
  have ld: "load_action 0 True \<lparr>ja_version = Some 1, ja_type = None, ja_id = ''UP'', ja_category = Some ''vehicle'',
        ja_name = None,
        ja_bindings = [\<lparr>jb_input_method = ''keyboard_char'', jb_mod = None,
                         jb_key = key_string ''k''\<rparr>],
        ja_is_user_created = Some True\<rparr> (add_keyboard_char_keycode_pair 107 ''k'' empty_manager)
       = Inr ((add_keyboard_char_keycode_pair 107 ''k'' empty_manager)
          \<lparr>action_contexts :=
             [''vehicle'' \<mapsto> [''UP'' \<mapsto> \<lparr>name = [], input_events = [\<lparr>etype = keyboard_char, modifiers = {}, sequence = [107], mouse_pos = (0, 0)\<rparr>],
                                             is_user_created = True\<rparr>]]\<rparr>)"
    by (simp add: load_action_def rb Let_def context_at_def new_action_attributes_def
        default_context_id_def)
       (simp add: add_keyboard_char_keycode_pair_def empty_manager_def new_action_attributes_def)
  show ?thesis
    using C10_user_created_entries [where ac = ?tbl and c = "''vehicle''" and a = "''UP''"
        and b = "''UP''" and e = ?e and status = s_add and nr = plain_resources
        and ctxt = ?ctxt and rc = True and cc = True and u = True and unwritten = 0
        and r = "\<lparr>ja_version = Some 1, ja_type = None, ja_id = ''UP'', ja_category = Some ''vehicle'',
        ja_name = None,
        ja_bindings = [\<lparr>jb_input_method = ''keyboard_char'', jb_mod = None,
                         jb_key = key_string ''k''\<rparr>],
        ja_is_user_created = Some True\<rparr>" and m = "(add_keyboard_char_keycode_pair 107 ''k'' empty_manager)" and m' = "(add_keyboard_char_keycode_pair 107 ''k'' empty_manager)
          \<lparr>action_contexts :=
             [''vehicle'' \<mapsto> [''UP'' \<mapsto> \<lparr>name = [], input_events = [\<lparr>etype = keyboard_char, modifiers = {}, sequence = [107], mouse_pos = (0, 0)\<rparr>],
                                             is_user_created = True\<rparr>]]\<rparr>"
        and entry' = "\<lparr>name = [], input_events = [?e], is_user_created = True\<rparr>"]
      none added run mat ld
    by simp
qed

end
